theory Spec2Isabelle
  imports Main
begin

section \<open>Strings as the script uses them\<close>

text \<open>
  Python strings are modelled as \<^typ>\<open>string\<close>. Case conversion and whitespace are
  those of the ASCII range; a character outside it is taken to be uncased and not a space.
\<close>

definition is_upper :: "char \<Rightarrow> bool" where
  "is_upper c = (let n = (of_char c :: nat) in 65 \<le> n \<and> n \<le> 90)"

definition is_lower :: "char \<Rightarrow> bool" where
  "is_lower c = (let n = (of_char c :: nat) in 97 \<le> n \<and> n \<le> 122)"

definition is_cased :: "char \<Rightarrow> bool" where
  "is_cased c = (is_upper c \<or> is_lower c)"

definition lower_char :: "char \<Rightarrow> char" where
  "lower_char c = (if is_upper c then char_of ((of_char c :: nat) + 32) else c)"

definition upper_char :: "char \<Rightarrow> char" where
  "upper_char c = (if is_lower c then char_of ((of_char c :: nat) - 32) else c)"

text \<open>\<^verbatim>\<open>str.isspace\<close> on ASCII: tab to carriage return, the four separators, space.\<close>

definition is_space :: "char \<Rightarrow> bool" where
  "is_space c = (let n = (of_char c :: nat) in (9 \<le> n \<and> n \<le> 13) \<or> (28 \<le> n \<and> n \<le> 32))"

definition py_lower :: "string \<Rightarrow> string" where
  "py_lower s = map lower_char s"

definition py_upper :: "string \<Rightarrow> string" where
  "py_upper s = map upper_char s"

text \<open>
  \<^verbatim>\<open>str.title\<close>: a character that follows a cased character is lower-cased, any other
  character is upper-cased.
\<close>

fun title_from :: "bool \<Rightarrow> string \<Rightarrow> string" where
  "title_from prev [] = []"
| "title_from prev (c # cs) =
     (if prev then lower_char c else upper_char c) # title_from (is_cased c) cs"

definition py_title :: "string \<Rightarrow> string" where
  "py_title s = title_from False s"

definition py_strip :: "string \<Rightarrow> string" where
  "py_strip s = rev (dropWhile is_space (rev (dropWhile is_space s)))"

text \<open>\<^verbatim>\<open>s.replace(c, '')\<close> for a one-character \<open>c\<close>.\<close>

definition remove_char :: "char \<Rightarrow> string \<Rightarrow> string" where
  "remove_char x s = filter (\<lambda>c. c \<noteq> x) s"

definition startswith :: "string \<Rightarrow> string \<Rightarrow> bool" where
  "startswith s p = (take (length p) s = p)"

definition endswith :: "string \<Rightarrow> string \<Rightarrow> bool" where
  "endswith s p = (length p \<le> length s \<and> drop (length s - length p) s = p)"

text \<open>
  \<^verbatim>\<open>s.replace(p, '')\<close> for a non-empty \<open>p\<close>: every occurrence of \<open>p\<close>, found from the
  left and not overlapping, is removed. The counter says how many characters of an
  occurrence are still to be skipped.
\<close>

fun remove_sub_from :: "string \<Rightarrow> nat \<Rightarrow> string \<Rightarrow> string" where
  "remove_sub_from p k [] = []"
| "remove_sub_from p k (c # cs) =
     (if 0 < k then remove_sub_from p (k - 1) cs
      else if startswith (c # cs) p then remove_sub_from p (length p - 1) cs
      else c # remove_sub_from p 0 cs)"

definition remove_sub :: "string \<Rightarrow> string \<Rightarrow> string" where
  "remove_sub p s = remove_sub_from p 0 s"

section \<open>Data frames\<close>

text \<open>
  A cell of a table: missing (\<^verbatim>\<open>NaN\<close>/\<^verbatim>\<open>None\<close>), text, a number, a boolean, or a geometry
  (by identity). Numbers are integers here; no claim depends on a fractional value.
\<close>

datatype cell = NaN | Str string | Num int | Bool bool | Geom nat

datatype dtype = Object | Numeric | Boolean | Geometry

record column =
  name :: string
  dtype :: dtype
  vals :: "cell list"

text \<open>A frame is the list of its columns, in order; pandas allows equal labels.\<close>

type_synonym frame = "column list"

definition columns :: "frame \<Rightarrow> string list" where
  "columns df = map name df"

definition nrows :: "frame \<Rightarrow> nat" where
  "nrows df = (case df of [] \<Rightarrow> 0 | c # _ \<Rightarrow> length (vals c))"

definition notna :: "cell \<Rightarrow> bool" where
  "notna c = (c \<noteq> NaN)"

text \<open>\<^verbatim>\<open>df[label]\<close>: the column of that label, \<^verbatim>\<open>KeyError\<close> (\<open>None\<close>) when there is none.\<close>

definition get_col :: "frame \<Rightarrow> string \<Rightarrow> column option" where
  "get_col df l = find (\<lambda>c. name c = l) df"

text \<open>\<^verbatim>\<open>df[label] = values\<close>: overwrites in place, or appends a new last column.\<close>

definition set_col :: "frame \<Rightarrow> string \<Rightarrow> dtype \<Rightarrow> cell list \<Rightarrow> frame" where
  "set_col df l d vs =
     (if l \<in> set (columns df)
      then map (\<lambda>c. if name c = l then c\<lparr>dtype := d, vals := vs\<rparr> else c) df
      else df @ [\<lparr>name = l, dtype = d, vals = vs\<rparr>])"

text \<open>\<^verbatim>\<open>df.rename(columns=f)\<close> with a mapping that is total on the labels.\<close>

definition rename_columns :: "(string \<Rightarrow> string) \<Rightarrow> frame \<Rightarrow> frame" where
  "rename_columns f df = map (\<lambda>c. c\<lparr>name := f (name c)\<rparr>) df"

text \<open>\<^verbatim>\<open>df.drop(columns=ls)\<close> once the labels are known to be present.\<close>

definition drop_columns :: "string list \<Rightarrow> frame \<Rightarrow> frame" where
  "drop_columns ls df = filter (\<lambda>c. name c \<notin> set ls) df"

text \<open>\<^verbatim>\<open>df.loc[:, ~df.columns.duplicated()]\<close>: of equal labels the first column stays.\<close>

fun duplicated :: "string list \<Rightarrow> string list \<Rightarrow> bool list" where
  "duplicated seen [] = []"
| "duplicated seen (l # ls) = (l \<in> set seen) # duplicated (l # seen) ls"

definition drop_duplicated :: "frame \<Rightarrow> frame" where
  "drop_duplicated df =
     map fst (filter (\<lambda>p. \<not> snd p) (zip df (duplicated [] (columns df))))"

text \<open>\<^verbatim>\<open>df.columns[df.columns.duplicated()].tolist()\<close>.\<close>

definition duplicated_labels :: "frame \<Rightarrow> string list" where
  "duplicated_labels df =
     map fst (filter snd (zip (columns df) (duplicated [] (columns df))))"

text \<open>
  \<^verbatim>\<open>df[labels]\<close>: for each label in turn every column that carries it; \<^verbatim>\<open>KeyError\<close>
  when a label is absent.
\<close>

fun select_columns :: "frame \<Rightarrow> string list \<Rightarrow> frame option" where
  "select_columns df [] = Some []"
| "select_columns df (l # ls) =
     (if l \<in> set (columns df)
      then (case select_columns df ls of
              None \<Rightarrow> None
            | Some r \<Rightarrow> Some (filter (\<lambda>c. name c = l) df @ r))
      else None)"

text \<open>\<^verbatim>\<open>series.fillna(v)\<close>.\<close>

definition fillna :: "cell \<Rightarrow> cell list \<Rightarrow> cell list" where
  "fillna v cs = map (\<lambda>c. if c = NaN then v else c) cs"

text \<open>\<^verbatim>\<open>df[l] = df[l].fillna(v)\<close>, on every column labelled \<open>l\<close>.\<close>

definition fill_column :: "string \<Rightarrow> cell \<Rightarrow> frame \<Rightarrow> frame" where
  "fill_column l v df = map (\<lambda>c. if name c = l then c\<lparr>vals := fillna v (vals c)\<rparr> else c) df"

section \<open>Name normalizer\<close>

text \<open>
  \<^verbatim>\<open>str(name)\<close> for the cells that a name column holds. A number prints in decimal; a
  geometry never sits in a name column.
\<close>

fun digits :: "nat \<Rightarrow> nat \<Rightarrow> string" where
  "digits 0 n = []"
| "digits (Suc f) n =
     (if n < 10 then [char_of (48 + n)] else digits f (n div 10) @ [char_of (48 + n mod 10)])"

definition str_int :: "int \<Rightarrow> string" where
  "str_int i = (if i < 0 then CHR ''-'' # digits (Suc (nat (- i))) (nat (- i))
                else digits (Suc (nat i)) (nat i))"

fun py_str :: "cell \<Rightarrow> string" where
  "py_str NaN = ''nan''"
| "py_str (Str s) = s"
| "py_str (Num i) = str_int i"
| "py_str (Bool b) = (if b then ''True'' else ''False'')"
| "py_str (Geom g) = []"

definition normalize :: "string \<Rightarrow> string" where
  "normalize s =
     remove_char CHR ''.'' (remove_char CHR ''-'' (remove_char CHR '' '' (py_strip (py_lower s))))"

definition create_match_key :: "cell \<Rightarrow> string" where
  "create_match_key nm = (if nm = NaN then [] else normalize (py_str nm))"

text \<open>
  \<^verbatim>\<open>series.str.title().str.strip()\<close>: applies to text, and gives a missing value for
  every other cell.
\<close>

definition title_strip :: "cell \<Rightarrow> cell" where
  "title_strip c = (case c of Str s \<Rightarrow> Str (py_strip (py_title s)) | _ \<Rightarrow> NaN)"

section \<open>Acronym resolver and column renaming\<close>

text \<open>
  The rows of the acronym sheet, as pairs of its \<^verbatim>\<open>Original\<close> and
  \<^verbatim>\<open>GIS Raw data layer\<close> cells, fill a dictionary from first to last; a row with a
  missing cell is skipped, a later row overwrites an earlier one.
\<close>

fun acronym_mapping_from :: "(cell \<rightharpoonup> cell) \<Rightarrow> (cell \<times> cell) list \<Rightarrow> (cell \<rightharpoonup> cell)" where
  "acronym_mapping_from m [] = m"
| "acronym_mapping_from m ((original_name, gis_raw_name) # rs) =
     acronym_mapping_from
       (if notna original_name \<and> notna gis_raw_name then m(original_name \<mapsto> gis_raw_name) else m) rs"

definition acronym_mapping :: "(cell \<times> cell) list \<Rightarrow> (cell \<rightharpoonup> cell)" where
  "acronym_mapping rs = acronym_mapping_from Map.empty rs"

text \<open>
  The new name of one column of the recommendation sheet. A short name read from the
  acronym sheet is used as it is when it is text.
\<close>

definition new_col_name :: "(cell \<rightharpoonup> cell) \<Rightarrow> string \<Rightarrow> string" where
  "new_col_name am col =
     (if col \<in> {''State'', ''District''} then col
      else (case am (Str col) of
              Some g \<Rightarrow> py_str g
            | None \<Rightarrow> take 10 col))"

definition district_rec_column_mapping :: "(cell \<rightharpoonup> cell) \<Rightarrow> string \<Rightarrow> string" where
  "district_rec_column_mapping am = new_col_name am"

section \<open>Errors and the left merge\<close>

datatype error =
    KeyError string
  | ValueError string
  | AttributeError string

definition and_then :: "error + 'a \<Rightarrow> ('a \<Rightarrow> error + 'b) \<Rightarrow> error + 'b" where
  "and_then r f = (case r of Inl e \<Rightarrow> Inl e | Inr x \<Rightarrow> f x)"

text \<open>
  \<^verbatim>\<open>df[label]\<close> where a single series is needed: \<^verbatim>\<open>KeyError\<close> when the label is
  absent; with several columns of that label pandas hands back a frame, on which the
  series operations of the script fail.
\<close>

definition get_series :: "frame \<Rightarrow> string \<Rightarrow> error + column" where
  "get_series df l =
     (case filter (\<lambda>c. name c = l) df of
        [] \<Rightarrow> Inl (KeyError l)
      | [c] \<Rightarrow> Inr c
      | _ \<Rightarrow> Inl (AttributeError l))"

text \<open>The \<^verbatim>\<open>.str\<close> accessor exists on columns of dtype \<^verbatim>\<open>object\<close> only.\<close>

definition str_accessor :: "frame \<Rightarrow> string \<Rightarrow> error + cell list" where
  "str_accessor df l =
     and_then (get_series df l)
       (\<lambda>c. if dtype c = Object then Inr (vals c) else Inl (AttributeError l))"

definition select_or_raise :: "frame \<Rightarrow> string list \<Rightarrow> error + frame" where
  "select_or_raise df ls =
     (case select_columns df ls of
        None \<Rightarrow> Inl (KeyError (concat ls))
      | Some r \<Rightarrow> Inr r)"

text \<open>
  The row pairs of \<^verbatim>\<open>left.merge(right, on=key, how='left')\<close>, as positions: the left
  rows in their order, each once for every right row of an equal key (in the right
  frame's order), or once with no partner. Missing keys are equal to each other.
\<close>

definition matches :: "cell list \<Rightarrow> cell \<Rightarrow> nat list" where
  "matches rk k = filter (\<lambda>j. rk ! j = k) [0..<length rk]"

definition partners :: "cell list \<Rightarrow> cell \<Rightarrow> nat option list" where
  "partners rk k = (case matches rk k of [] \<Rightarrow> [None] | js \<Rightarrow> map Some js)"

definition join_indexers :: "cell list \<Rightarrow> cell list \<Rightarrow> (nat \<times> nat option) list" where
  "join_indexers lk rk =
     concat (map (\<lambda>i. map (\<lambda>p. (i, p)) (partners rk (lk ! i))) [0..<length lk])"

definition take_left :: "(nat \<times> nat option) list \<Rightarrow> cell list \<Rightarrow> cell list" where
  "take_left ix vs = map (\<lambda>(i, p). vs ! i) ix"

definition take_right :: "(nat \<times> nat option) list \<Rightarrow> cell list \<Rightarrow> cell list" where
  "take_right ix vs = map (\<lambda>(i, p). case p of None \<Rightarrow> NaN | Some j \<Rightarrow> vs ! j) ix"

text \<open>A boolean column that receives missing values becomes an \<^verbatim>\<open>object\<close> column.\<close>

definition promote :: "(nat \<times> nat option) list \<Rightarrow> dtype \<Rightarrow> dtype" where
  "promote ix d = (if d = Boolean \<and> list_ex (\<lambda>x. snd x = None) ix then Object else d)"

text \<open>
  The merged frame: the left columns, then the right columns without the key; a label
  that both sides carry (the key apart) gets the side's suffix.
\<close>

definition merge_left :: "frame \<Rightarrow> frame \<Rightarrow> string \<Rightarrow> string \<times> string \<Rightarrow> error + frame" where
  "merge_left left right on sfx =
     and_then (get_series left on) (\<lambda>lk.
     and_then (get_series right on) (\<lambda>rk.
       let ix = join_indexers (vals lk) (vals rk);
           overlap = (\<lambda>l. l \<noteq> on \<and> l \<in> set (columns left) \<and> l \<in> set (columns right))
       in Inr (map (\<lambda>c. \<lparr>name = (if overlap (name c) then name c @ fst sfx else name c),
                          dtype = dtype c, vals = take_left ix (vals c)\<rparr>) left
             @ map (\<lambda>c. \<lparr>name = (if overlap (name c) then name c @ snd sfx else name c),
                          dtype = promote ix (dtype c), vals = take_right ix (vals c)\<rparr>)
                 (filter (\<lambda>c. name c \<noteq> on) right))))"

section \<open>Master record builder\<close>

text \<open>Step 3.1: the acronym dictionary from the sheet; a sheet without rows is never indexed.\<close>

definition acronym_of_sheet :: "frame \<Rightarrow> error + (cell \<rightharpoonup> cell)" where
  "acronym_of_sheet gis_acronym =
     (if nrows gis_acronym = 0 then Inr Map.empty
      else and_then (get_series gis_acronym ''Original'') (\<lambda>orig.
           and_then (get_series gis_acronym ''GIS Raw data layer'') (\<lambda>gis.
             Inr (acronym_mapping (zip (vals orig) (vals gis))))))"

text \<open>Step 3.2: the recommendation sheet under its new column names.\<close>

definition district_rec_processed :: "(cell \<rightharpoonup> cell) \<Rightarrow> frame \<Rightarrow> frame" where
  "district_rec_processed am district_recommendations =
     rename_columns (district_rec_column_mapping am) district_recommendations"

text \<open>Step 3.3: the ranking sheet with its four columns relabelled by position.\<close>

definition master_base :: "frame \<Rightarrow> error + frame" where
  "master_base solar_ranking =
     (if length solar_ranking = 4
      then Inr (map (\<lambda>(c, l). c\<lparr>name := l\<rparr>)
                 (zip solar_ranking
                    [''District'', ''Adaptation_New'', ''Mitigation_New'', ''Replacement_New'']))
      else Inl (ValueError ''Length mismatch''))"

text \<open>\<^verbatim>\<open>df['District_Clean'] = df['District'].str.title().str.strip()\<close>.\<close>

definition add_district_clean :: "frame \<Rightarrow> error + frame" where
  "add_district_clean df =
     and_then (str_accessor df ''District'')
       (\<lambda>vs. Inr (set_col df ''District_Clean'' Object (map title_strip vs)))"

text \<open>Step 3.4: the recommendation columns joined on, the suffixed doubles dropped.\<close>

definition duplicate_cols :: "frame \<Rightarrow> string list" where
  "duplicate_cols df =
     filter (\<lambda>col. endswith col ''_district_rec''
                    \<and> remove_sub ''_district_rec'' col \<in> set (columns df)) (columns df)"

definition merge_district_rec :: "frame \<Rightarrow> frame \<Rightarrow> error + frame" where
  "merge_district_rec master rec =
     and_then (add_district_clean master) (\<lambda>m.
     and_then (add_district_clean rec) (\<lambda>r.
     and_then (merge_left m r ''District_Clean'' ([], ''_district_rec'')) (\<lambda>j.
       Inr (drop_columns (duplicate_cols j) j))))"

text \<open>Step 3.5: the community sheet's \<^verbatim>\<open>Final\<close> column joined on as \<^verbatim>\<open>Community_SIP\<close>.\<close>

definition community_sip_clean :: "frame \<Rightarrow> error + frame" where
  "community_sip_clean community_sip =
     and_then (select_or_raise community_sip [''State'', ''District'', ''Final'']) (\<lambda>c.
     and_then (str_accessor c ''State'') (\<lambda>st.
     and_then (add_district_clean (set_col c ''State'' Object
                 (map (\<lambda>x. case x of Str s \<Rightarrow> Str (py_title s) | _ \<Rightarrow> NaN) st))) (\<lambda>c2.
       Inr (rename_columns (\<lambda>l. if l = ''Final'' then ''Community_SIP'' else l) c2))))"

definition require_column :: "frame \<Rightarrow> string \<Rightarrow> error + frame" where
  "require_column df l = (if l \<in> set (columns df) then Inr df else Inl (KeyError l))"

definition merge_community :: "frame \<Rightarrow> frame \<Rightarrow> error + frame" where
  "merge_community master community_sip =
     and_then (community_sip_clean community_sip) (\<lambda>c.
     and_then (select_or_raise c [''District_Clean'', ''Community_SIP'']) (\<lambda>c2.
     and_then (merge_left master c2 ''District_Clean'' (''_x'', ''_y'')) (\<lambda>j.
     and_then (require_column j ''Community_SIP'') (\<lambda>j2.
       Inr (fill_column ''Community_SIP'' (Str []) j2)))))"

text \<open>Step 3.6: the potential sheet's \<^verbatim>\<open>Final Potential\<close> joined on as \<^verbatim>\<open>Overall_Potential\<close>.\<close>

definition potential_clean :: "frame \<Rightarrow> error + frame" where
  "potential_clean potential_data =
     and_then (select_or_raise potential_data [''District'', ''Final Potential'']) (\<lambda>p.
     and_then (add_district_clean p) (\<lambda>p2.
       Inr (rename_columns (\<lambda>l. if l = ''Final Potential'' then ''Overall_Potential'' else l) p2)))"

definition merge_potential :: "frame \<Rightarrow> frame \<Rightarrow> error + frame" where
  "merge_potential master potential_data =
     and_then (potential_clean potential_data) (\<lambda>p.
     and_then (select_or_raise p [''District_Clean'', ''Overall_Potential'']) (\<lambda>p2.
       merge_left master p2 ''District_Clean'' (''_x'', ''_y'')))"

text \<open>Steps 3.1 to 3.6 in the order of the script.\<close>

definition master_data :: "frame \<Rightarrow> frame \<Rightarrow> frame \<Rightarrow> frame \<Rightarrow> frame \<Rightarrow> error + frame" where
  "master_data solar_ranking district_recommendations community_sip gis_acronym potential_data =
     and_then (acronym_of_sheet gis_acronym) (\<lambda>am.
     and_then (master_base solar_ranking) (\<lambda>m0.
     and_then (merge_district_rec m0 (district_rec_processed am district_recommendations)) (\<lambda>m1.
     and_then (merge_community m1 community_sip) (\<lambda>m2.
       merge_potential m2 potential_data))))"

section \<open>Geometry merger\<close>

text \<open>Step 1.5: only the geometry and the name columns of the boundary file are kept.\<close>

definition is_name_column :: "string \<Rightarrow> bool" where
  "is_name_column col = (startswith (py_upper col) ''NAME_'' \<or> py_upper col = ''NAME'')"

definition name_columns :: "frame \<Rightarrow> string list" where
  "name_columns gdf = filter is_name_column (columns gdf)"

definition clean_gdf :: "frame \<Rightarrow> error + frame" where
  "clean_gdf gdf = select_or_raise gdf (''geometry'' # name_columns gdf)"

text \<open>\<^verbatim>\<open>df['match_key'] = df[src].apply(create_match_key)\<close>.\<close>

definition add_match_key :: "frame \<Rightarrow> string \<Rightarrow> error + frame" where
  "add_match_key df src =
     and_then (get_series df src)
       (\<lambda>c. Inr (set_col df ''match_key'' Object (map (\<lambda>x. Str (create_match_key x)) (vals c))))"

text \<open>The boundary column that is matched on, when there is one.\<close>

definition match_column :: "frame \<Rightarrow> string option" where
  "match_column gdf =
     (if ''NAME_2'' \<in> set (columns gdf) then Some ''NAME_2''
      else if ''District'' \<in> set (columns gdf) then Some ''District''
      else None)"

definition merged_gdf :: "frame \<Rightarrow> frame \<Rightarrow> error + frame" where
  "merged_gdf gdf master = merge_left gdf master ''match_key'' (''_x'', ''_y'')"

definition successful_merges :: "frame \<Rightarrow> error + nat" where
  "successful_merges merged =
     and_then (get_series merged ''Adaptation_New'')
       (\<lambda>c. Inr (length (filter notna (vals c))))"

text \<open>Step 5: the temporary columns go, and of equal labels the first column stays.\<close>

definition drop_temporary :: "frame \<Rightarrow> frame" where
  "drop_temporary merged =
     drop_duplicated (drop_columns [''District_Clean''] (drop_columns [''match_key''] merged))"

definition essential_cols :: "frame \<Rightarrow> string list" where
  "essential_cols gdf =
     ''geometry'' # filter (\<lambda>col. col \<noteq> ''geometry'' \<and> col \<notin> set [''match_key'']) (columns gdf)"

definition core_suitability_mapping :: "(string \<times> string) list" where
  "core_suitability_mapping =
     [(''Adaptation_New'', ''Adapt''),
      (''Mitigation_New'', ''Mitigate''),
      (''Replacement_New'', ''Replace''),
      (''Overall_Potential'', ''General_SI''),
      (''Community_SIP'', ''Comm_SIP''),
      (''State'', ''State_Name''),
      (''District'', ''Dist_Name'')]"

text \<open>
  Each core column that is present is copied under its short name, and the short name
  joins the essential columns.
\<close>

fun apply_core_mapping :: "(string \<times> string) list \<Rightarrow> frame \<times> string list \<Rightarrow> frame \<times> string list" where
  "apply_core_mapping [] st = st"
| "apply_core_mapping ((old_name, new_name) # ms) (df, ess) =
     (case get_col df old_name of
        Some c \<Rightarrow> apply_core_mapping ms (set_col df new_name (dtype c) (vals c), ess @ [new_name])
      | None \<Rightarrow> apply_core_mapping ms (df, ess))"

text \<open>The community boolean: equality of the marker with \<^verbatim>\<open>'Community SIP'\<close>.\<close>

definition add_has_commsi :: "frame \<times> string list \<Rightarrow> frame \<times> string list" where
  "add_has_commsi st =
     (case get_col (fst st) ''Comm_SIP'' of
        Some c \<Rightarrow> (set_col (fst st) ''Has_CommSI'' Boolean
                     (map (\<lambda>x. Bool (x = Str ''Community SIP'')) (vals c)),
                   snd st @ [''Has_CommSI''])
      | None \<Rightarrow> st)"

definition skip_cols :: "frame \<Rightarrow> string list" where
  "skip_cols gdf =
     [''geometry'', ''match_key'', ''District_Clean'', ''Adaptation_New'', ''Mitigation_New'',
      ''Replacement_New'', ''Overall_Potential'', ''Community_SIP'', ''State'', ''District'',
      ''Adapt'', ''Mitigate'', ''Replace'', ''General_SI'', ''Comm_SIP'', ''State_Name'',
      ''Dist_Name'', ''Has_CommSI'']
     @ filter (\<lambda>c. c \<noteq> ''geometry'') (columns gdf)"

text \<open>
  The remaining columns, in the frame's order: the pair is \<^verbatim>\<open>district_rec_cols\<close> and
  \<^verbatim>\<open>essential_cols\<close>, both growing.
\<close>

fun collect_rec_cols :: "string list \<Rightarrow> string list \<Rightarrow> string list \<times> string list \<Rightarrow> string list \<times> string list" where
  "collect_rec_cols skip [] st = st"
| "collect_rec_cols skip (col # cols) (rec, ess) =
     (if col \<notin> set skip \<and> col \<notin> set ess
      then collect_rec_cols skip cols (rec @ [col], ess @ [col])
      else collect_rec_cols skip cols (rec, ess))"

section \<open>Output writer\<close>

definition fill_if_present :: "string \<Rightarrow> cell \<Rightarrow> frame \<Rightarrow> frame" where
  "fill_if_present l v df = (if l \<in> set (columns df) then fill_column l v df else df)"

definition fill_suitability :: "frame \<Rightarrow> frame" where
  "fill_suitability df =
     fold (\<lambda>col d. fill_if_present col (Str ''No Data'') d)
       [''Adapt'', ''Mitigate'', ''Replace'', ''General_SI''] df"

definition fill_community :: "frame \<Rightarrow> frame" where
  "fill_community df =
     fill_if_present ''Has_CommSI'' (Bool False) (fill_if_present ''Comm_SIP'' (Str []) df)"

text \<open>A recommendation column is filled by its dtype: text with \<^verbatim>\<open>'N/A'\<close>, else with 0.\<close>

definition fill_rec_col :: "string \<Rightarrow> frame \<Rightarrow> frame" where
  "fill_rec_col col df =
     map (\<lambda>c. if name c = col
              then c\<lparr>vals := fillna (if dtype c = Object then Str ''N/A'' else Num 0) (vals c)\<rparr>
              else c) df"

definition fill_district_rec :: "string list \<Rightarrow> frame \<Rightarrow> frame" where
  "fill_district_rec rec df = fold fill_rec_col rec df"

text \<open>
  Step 5 up to the selection of the essential columns: the selected frame, and the
  recommendation columns that were found.
\<close>

definition selected_columns :: "frame \<Rightarrow> frame \<Rightarrow> error + frame \<times> string list" where
  "selected_columns gdf merged =
     (let st = add_has_commsi
                 (apply_core_mapping core_suitability_mapping (drop_temporary merged, essential_cols gdf));
          rc = collect_rec_cols (skip_cols gdf) (columns (fst st)) ([], snd st)
      in and_then (select_or_raise (fst st) (snd rc)) (\<lambda>sel. Inr (sel, fst rc)))"

text \<open>The fills of the missing values, in the order of the script.\<close>

definition fill_missing :: "string list \<Rightarrow> frame \<Rightarrow> frame" where
  "fill_missing district_rec_cols df =
     fill_district_rec district_rec_cols (fill_community (fill_suitability df))"

definition final_gdf :: "frame \<Rightarrow> frame \<Rightarrow> error + frame \<times> string list" where
  "final_gdf gdf merged =
     and_then (selected_columns gdf merged)
       (\<lambda>sel. Inr (fill_missing (snd sel) (fst sel), snd sel))"

text \<open>The last check for equal labels, before the frame is saved.\<close>

definition remaining_duplicates :: "frame \<Rightarrow> frame" where
  "remaining_duplicates df = (if duplicated_labels df \<noteq> [] then drop_duplicated df else df)"

section \<open>The run\<close>

text \<open>
  The transcript keeps the lines that tell one course of a run from another; the progress
  lines and the printed distributions are left out. The frame handed to the file writer
  is recorded, and so is the way the function ends: it returns, or an exception that
  nothing catches leaves it.
\<close>

datatype event =
    Shapefile_not_found
  | Excel_load_error
  | No_district_column
  | No_matches_warning "cell list" "cell list"
  | Duplicate_columns_warning "string list"
  | Saved
  | Save_error
  | Community_sip_districts "cell list"
  | Total_features nat

datatype outcome = Returned bool | Raised error

record run =
  transcript :: "event list"
  to_file :: "frame option"
  outcome :: outcome

text \<open>
  What a run reads: the boundary file (\<open>None\<close> when it is not there or cannot be read),
  the workbook as its sheets by name (\<open>None\<close> when it cannot be opened), and whether the
  file writer succeeds.
\<close>

record inputs =
  shapefile :: "frame option"
  workbook :: "(string \<rightharpoonup> frame) option"
  writable :: bool

definition sheet_names :: "string list" where
  "sheet_names =
     [''Solar Suitability_new_ranking'', ''District_recommendation'', ''Adaptation'',
      ''Mitigation'', ''Replacement'', ''Community SIP'', ''GIS layer accronym'',
      ''potential'', ''All'']"

definition load_excel :: "(string \<rightharpoonup> frame) option \<Rightarrow> (string \<Rightarrow> frame) option" where
  "load_excel wb =
     (case wb of
        None \<Rightarrow> None
      | Some sheets \<Rightarrow>
          (if list_all (\<lambda>s. sheets s \<noteq> None) sheet_names
           then Some (\<lambda>s. case sheets s of Some f \<Rightarrow> f | None \<Rightarrow> [])
           else None))"

definition stopped :: "event list \<Rightarrow> outcome \<Rightarrow> run" where
  "stopped log out = \<lparr>transcript = log, to_file = None, outcome = out\<rparr>"

text \<open>Step 7, as far as it is kept: the community count, when its column is there.\<close>

definition report :: "frame \<Rightarrow> event list" where
  "report df =
     (case get_col df ''Has_CommSIP'' of
        Some c \<Rightarrow> [Community_sip_districts (vals c)]
      | None \<Rightarrow> [])
     @ [Total_features (nrows df)]"

text \<open>Step 6 and 7.\<close>

definition save_and_report :: "bool \<Rightarrow> event list \<Rightarrow> frame \<Rightarrow> run" where
  "save_and_report ok log df =
     (if ok
      then \<lparr>transcript = log @ [Saved] @ report df, to_file = Some df, outcome = Returned True\<rparr>
      else \<lparr>transcript = log @ [Save_error], to_file = Some df, outcome = Returned False\<rparr>)"

text \<open>The warning of step 4, with the first five names of either side.\<close>

definition no_matches_warning :: "nat \<Rightarrow> frame \<Rightarrow> string \<Rightarrow> frame \<Rightarrow> error + event list" where
  "no_matches_warning n gdf mc master =
     (if n = 0
      then and_then (get_series gdf mc) (\<lambda>g.
           and_then (get_series master ''District'') (\<lambda>d.
             Inr [No_matches_warning (take 5 (vals g)) (take 5 (vals d))]))
      else Inr [])"

definition duplicate_warning :: "frame \<Rightarrow> event list" where
  "duplicate_warning df =
     (if duplicated_labels df \<noteq> [] then [Duplicate_columns_warning (duplicated_labels df)] else [])"

text \<open>Steps 4 to 7, from the cleaned boundary frame and the master data.\<close>

definition match_and_save :: "bool \<Rightarrow> frame \<Rightarrow> frame \<Rightarrow> run" where
  "match_and_save ok gdf master =
     (case add_match_key master ''District_Clean'' of
        Inl e \<Rightarrow> stopped [] (Raised e)
      | Inr m \<Rightarrow>
     (case match_column gdf of
        None \<Rightarrow> stopped [No_district_column] (Returned False)
      | Some mc \<Rightarrow>
     (case add_match_key gdf mc of
        Inl e \<Rightarrow> stopped [] (Raised e)
      | Inr g \<Rightarrow>
     (case merged_gdf g m of
        Inl e \<Rightarrow> stopped [] (Raised e)
      | Inr mg \<Rightarrow>
     (case successful_merges mg of
        Inl e \<Rightarrow> stopped [] (Raised e)
      | Inr n \<Rightarrow>
     (case no_matches_warning n g mc m of
        Inl e \<Rightarrow> stopped [] (Raised e)
      | Inr w \<Rightarrow>
     (case final_gdf g mg of
        Inl e \<Rightarrow> stopped w (Raised e)
      | Inr (f, rc) \<Rightarrow>
          save_and_report ok (w @ duplicate_warning f) (remaining_duplicates f))))))))"

text \<open>The whole of \<^verbatim>\<open>create_true_solar_suitability_shapefile\<close>.\<close>

definition create_true_solar_suitability_shapefile :: "inputs \<Rightarrow> run" where
  "create_true_solar_suitability_shapefile inp =
     (case shapefile inp of
        None \<Rightarrow> stopped [Shapefile_not_found] (Returned False)
      | Some gdf0 \<Rightarrow>
     (case clean_gdf gdf0 of
        Inl e \<Rightarrow> stopped [] (Raised e)
      | Inr gdf \<Rightarrow>
     (case load_excel (workbook inp) of
        None \<Rightarrow> stopped [Excel_load_error] (Returned False)
      | Some sheet \<Rightarrow>
     (case master_data (sheet ''Solar Suitability_new_ranking'') (sheet ''District_recommendation'')
             (sheet ''Community SIP'') (sheet ''GIS layer accronym'') (sheet ''potential'') of
        Inl e \<Rightarrow> stopped [] (Raised e)
      | Inr master \<Rightarrow> match_and_save (writable inp) gdf master))))"

section \<open>Legend\<close>

text \<open>The suitability levels of each category, with their colours, as the legend has them.\<close>

definition color_mappings :: "(string \<times> (string \<times> string) list) list" where
  "color_mappings =
     [(''Adaptation'',
         [(''Less Suitable'', ''#F44336''),
          (''Moderately Suitable'', ''#FFEB3B''),
          (''Highly Suitable'', ''#2007FF''),
          (''Very Highly Suitable'', ''#2E7D32'')]),
      (''Mitigation'',
         [(''Less Suitable'', ''#D32F2F''),
          (''Moderately Suitable'', ''#FFEB3B''),
          (''Highly Suitable'', ''#FFC107''),
          (''Very High Suitable'', ''#2E7D32'')]),
      (''Replacment'',
         [(''Less Suitable'', ''#8D6E63''),
          (''Moderately Suitable'', ''#FFEB3B''),
          (''Highly Suitable'', ''#FFB007''),
          (''Highly Suitable (On Grid)'', ''#66BB6A''),
          (''Highly Suitable (Community Wells)'', ''#4CAF50''),
          (''Highly Suitable (On Grid Community Wells)'', ''#2E7D32'')]),
      (''General_SI'',
         [(''Less Suitable'', ''#F44336''),
          (''Moderately Suitable'', ''#FFEB3B''),
          (''Highly Suitable (On Grid Replacement)'', ''#A5D6A7''),
          (''Highly Suitable (On Grid Community Wells)'', ''#66BB6A''),
          (''Highly Suitable (Mitigation + On Grid Replacement)'', ''#26A69A''),
          (''Highly Suitable (Mitigation + On Grid Community We'', ''#00695C''),
          (''Highly Suitable (Mitigation)'', ''#4DB6AC''),
          (''Highly Suitable (Adaptation + On Grid Replacement)'', ''#B39DDB''),
          (''Highly Suitable (Adaptation + On Grid Community We'', ''#81D4FA''),
          (''Highly Suitable (Adaptation + Mitigation + On Grid'', ''#1976D2''),
          (''Highly Suitable (Adaptation + Mitigation)'', ''#2196F3''),
          (''Highly Suitable (Adaptation )'', ''#9C27B0''),
          (''Highly Suitable'', ''#FFC107'')])]"

definition get_category_colors :: "string \<Rightarrow> (string \<times> string) list" where
  "get_category_colors category =
     (case map_of color_mappings category of Some m \<Rightarrow> m | None \<Rightarrow> [])"

text \<open>Every column of a pandas frame has one cell for each row.\<close>

definition rectangular :: "frame \<Rightarrow> bool" where
  "rectangular df = list_all (\<lambda>c. length (vals c) = nrows df) df"

text \<open>
  Every column has as many cells as the key list, and a column called
  \<^verbatim>\<open>District_Clean\<close> holds that list.
\<close>

definition keyed_by :: "cell list \<Rightarrow> frame \<Rightarrow> bool" where
  "keyed_by ks df =
     list_all (\<lambda>c. length (vals c) = length ks \<and> (name c \<noteq> ''District_Clean'' \<or> vals c = ks)) df"

section \<open>A sample run\<close>

text \<open>
  A boundary file of three districts with a placeholder column, and a workbook whose
  ranking sheet names two of them.
\<close>

definition series :: "string \<Rightarrow> dtype \<Rightarrow> cell list \<Rightarrow> column" where
  "series l d vs = \<lparr>name = l, dtype = d, vals = vs\<rparr>"

definition boundary_sample :: frame where
  "boundary_sample =
     [series ''NAME_1'' Object [Str ''Maharashtra'', Str ''Bihar'', Str ''West Bengal''],
      series ''NAME_2'' Object [Str ''Pune'', Str ''Aurangabad'', Str ''Kolkata''],
      series ''Solar_Idx'' Numeric [Num 1, Num 2, Num 3],
      series ''geometry'' Geometry [Geom 0, Geom 1, Geom 2]]"

definition ranking_sample :: frame where
  "ranking_sample =
     [series ''District'' Object [Str ''pune '', Str ''AURANGABAD''],
      series ''Adaptation'' Object [Str ''Highly Suitable'', Str ''Less Suitable''],
      series ''Mitigation'' Object [Str ''Moderately Suitable'', Str ''Less Suitable''],
      series ''Replacement'' Object [Str ''Highly Suitable (On Grid)'', NaN]]"

definition recommendation_sample :: frame where
  "recommendation_sample =
     [series ''State'' Object [Str ''Maharashtra'', Str ''Bihar''],
      series ''District'' Object [Str ''Pune'', Str ''Aurangabad''],
      series ''Groundwater Development Status'' Object [Str ''Safe'', NaN],
      series ''Irrigation Source'' Numeric [NaN, Num 5]]"

definition community_sample :: frame where
  "community_sample =
     [series ''State'' Object [Str ''maharashtra''],
      series ''District'' Object [Str ''Pune''],
      series ''Final'' Object [Str ''Community SIP'']]"

definition acronym_sample :: frame where
  "acronym_sample =
     [series ''Original'' Object [Str ''Irrigation Source'', NaN],
      series ''GIS Raw data layer'' Object [Str ''Irr_Src'', Str ''Unused'']]"

definition potential_sample :: frame where
  "potential_sample =
     [series ''District'' Object [Str ''Pune'', Str ''Aurangabad''],
      series ''Final Potential'' Object [Str ''Highly Suitable (Mitigation)'', Str ''Less Suitable'']]"

definition workbook_of :: "frame \<Rightarrow> frame \<Rightarrow> frame \<Rightarrow> frame \<Rightarrow> frame \<Rightarrow> (string \<rightharpoonup> frame)" where
  "workbook_of ranking recommendation community acronym potential =
     map_of [(''Solar Suitability_new_ranking'', ranking),
             (''District_recommendation'', recommendation),
             (''Adaptation'', []), (''Mitigation'', []), (''Replacement'', []),
             (''Community SIP'', community),
             (''GIS layer accronym'', acronym),
             (''potential'', potential),
             (''All'', [])]"

definition inputs_sample :: inputs where
  "inputs_sample =
     \<lparr>shapefile = Some boundary_sample,
      workbook = Some (workbook_of ranking_sample recommendation_sample community_sample
                         acronym_sample potential_sample),
      writable = True\<rparr>"

text \<open>The frame that the sample run hands to the file writer.\<close>

definition output_sample :: frame where
  "output_sample =
     [series ''geometry'' Geometry [Geom 0, Geom 1, Geom 2],
      series ''NAME_1'' Object [Str ''Maharashtra'', Str ''Bihar'', Str ''West Bengal''],
      series ''NAME_2'' Object [Str ''Pune'', Str ''Aurangabad'', Str ''Kolkata''],
      series ''Adapt'' Object [Str ''Highly Suitable'', Str ''Less Suitable'', Str ''No Data''],
      series ''Mitigate'' Object [Str ''Moderately Suitable'', Str ''Less Suitable'', Str ''No Data''],
      series ''Replace'' Object [Str ''Highly Suitable (On Grid)'', Str ''No Data'', Str ''No Data''],
      series ''General_SI'' Object
        [Str ''Highly Suitable (Mitigation)'', Str ''Less Suitable'', Str ''No Data''],
      series ''Comm_SIP'' Object [Str ''Community SIP'', Str [], Str []],
      series ''State_Name'' Object [Str ''Maharashtra'', Str ''Bihar'', NaN],
      series ''Dist_Name'' Object [Str ''pune '', Str ''AURANGABAD'', NaN],
      series ''Has_CommSI'' Boolean [Bool True, Bool False, Bool False],
      series ''Groundwate'' Object [Str ''Safe'', Str ''N/A'', Str ''N/A''],
      series ''Irr_Src'' Numeric [Num 0, Num 5, Num 0]]"

text \<open>
  A recommendation sheet that lists the two districts called Aurangabad, one in each
  state; the ranking sheet, which has no state column, names Aurangabad once.
\<close>

definition recommendation_two_states :: frame where
  "recommendation_two_states =
     [series ''State'' Object [Str ''Maharashtra'', Str ''Bihar'', Str ''Maharashtra''],
      series ''District'' Object [Str ''Aurangabad'', Str ''Aurangabad'', Str ''Pune''],
      series ''Groundwater Development Status'' Object [Str ''Critical'', Str ''Safe'', Str ''Safe'']]"




text \<open>The stages of the sample run.\<close>

definition master_sample :: frame where
  "master_sample = projr (master_data ranking_sample recommendation_sample community_sample
                            acronym_sample potential_sample)"

definition master_with_key :: frame where
  "master_with_key = projr (add_match_key master_sample ''District_Clean'')"

definition cleaned_boundary_sample :: frame where
  "cleaned_boundary_sample = projr (clean_gdf boundary_sample)"

definition boundary_with_key :: frame where
  "boundary_with_key = projr (add_match_key cleaned_boundary_sample ''NAME_2'')"

definition merged_sample :: frame where
  "merged_sample = projr (merged_gdf boundary_with_key master_with_key)"

definition selected_sample :: frame where
  "selected_sample =
     [series ''geometry'' Geometry [Geom 0, Geom 1, Geom 2],
      series ''NAME_1'' Object [Str ''Maharashtra'', Str ''Bihar'', Str ''West Bengal''],
      series ''NAME_2'' Object [Str ''Pune'', Str ''Aurangabad'', Str ''Kolkata''],
      series ''Adapt'' Object [Str ''Highly Suitable'', Str ''Less Suitable'', NaN],
      series ''Mitigate'' Object [Str ''Moderately Suitable'', Str ''Less Suitable'', NaN],
      series ''Replace'' Object [Str ''Highly Suitable (On Grid)'', NaN, NaN],
      series ''General_SI'' Object [Str ''Highly Suitable (Mitigation)'', Str ''Less Suitable'', NaN],
      series ''Comm_SIP'' Object [Str ''Community SIP'', Str [], NaN],
      series ''State_Name'' Object [Str ''Maharashtra'', Str ''Bihar'', NaN],
      series ''Dist_Name'' Object [Str ''pune '', Str ''AURANGABAD'', NaN],
      series ''Has_CommSI'' Boolean [Bool True, Bool False, Bool False],
      series ''Groundwate'' Object [Str ''Safe'', NaN, NaN],
      series ''Irr_Src'' Numeric [NaN, Num 5, NaN]]"

text \<open>A ranking sheet with a level that the legend does not list.\<close>

definition ranking_unlisted :: frame where
  "ranking_unlisted =
     [series ''District'' Object [Str ''Pune'', Str ''Aurangabad''],
      series ''Adaptation'' Object [Str ''Not Assessed'', Str ''Less Suitable''],
      series ''Mitigation'' Object [Str ''Moderately Suitable'', Str ''Less Suitable''],
      series ''Replacement'' Object [Str ''Highly Suitable (On Grid)'', NaN]]"

definition inputs_unlisted :: inputs where
  "inputs_unlisted =
     \<lparr>shapefile = Some boundary_sample,
      workbook = Some (workbook_of ranking_unlisted recommendation_sample community_sample
                         acronym_sample potential_sample),
      writable = True\<rparr>"



section \<open>Properties of the normalizer and of the renaming\<close>








lemma matches_iff: "j \<in> set (matches rk k) \<longleftrightarrow> j < length rk \<and> rk ! j = k"
  by (auto simp add: matches_def)

lemma partners_Some: "Some j \<in> set (partners rk k) \<longleftrightarrow> j < length rk \<and> rk ! j = k"
  by (auto simp add: partners_def matches_iff [symmetric] split: list.splits)

lemma join_indexers_Some:
  "(i, Some j) \<in> set (join_indexers lk rk) \<longleftrightarrow> i < length lk \<and> j < length rk \<and> rk ! j = lk ! i"
proof -
  have "(i, Some j) \<in> set (join_indexers lk rk)
        \<longleftrightarrow> i < length lk \<and> Some j \<in> set (partners rk (lk ! i))"
    by (auto simp add: join_indexers_def)
  then show ?thesis by (simp add: partners_Some)
qed




lemma acronym_mapping_from_dom:
  "acronym_mapping_from m rs k = Some v \<Longrightarrow> m k = Some v \<or> (k, v) \<in> set rs"
  by (induction m rs rule: acronym_mapping_from.induct) (auto split: if_splits)

lemma acronym_mapping_absent:
  "k \<notin> fst ` set rs \<Longrightarrow> acronym_mapping rs k = None"
proof (rule ccontr)
  assume k: "k \<notin> fst ` set rs" and "acronym_mapping rs k \<noteq> None"
  then obtain v where "acronym_mapping_from Map.empty rs k = Some v"
    by (auto simp add: acronym_mapping_def)
  then have "(k, v) \<in> set rs"
    using acronym_mapping_from_dom by fastforce
  with k show False by force
qed

text \<open>
  C6, as the code has it. The columns \<^verbatim>\<open>State\<close> and \<^verbatim>\<open>District\<close> keep their names
  whatever the acronym sheet says. Every other column of the recommendation sheet takes
  the short name of the acronym lookup when its label is there, and the first ten
  characters of its label otherwise; with no row for
  \<^verbatim>\<open>Groundwater Development Status\<close> in the acronym sheet that column becomes
  \<^verbatim>\<open>Groundwate\<close>.
\<close>

theorem rename_or_truncate:
  assumes "i < length df" and "col = name (df ! i)"
  shows "(col \<in> {''State'', ''District''} \<longrightarrow>
            columns (district_rec_processed am df) ! i = col)
       \<and> (col \<notin> {''State'', ''District''} \<and> am (Str col) = Some (Str g) \<longrightarrow>
            columns (district_rec_processed am df) ! i = g)
       \<and> (col \<notin> {''State'', ''District''} \<and> am (Str col) = None \<longrightarrow>
            columns (district_rec_processed am df) ! i = take 10 col)
       \<and> (col = ''Groundwater Development Status'' \<and> Str col \<notin> fst ` set rows \<longrightarrow>
            columns (district_rec_processed (acronym_mapping rows) df) ! i = ''Groundwate'')"
proof -
  have n: "\<And>m. columns (district_rec_processed m df) ! i = new_col_name m col"
    using assms
    by (simp add: columns_def district_rec_processed_def rename_columns_def
        district_rec_column_mapping_def)
  have g: "Str ''Groundwater Development Status'' \<notin> fst ` set rows \<Longrightarrow>
      new_col_name (acronym_mapping rows) ''Groundwater Development Status'' = ''Groundwate''"
    by (simp add: new_col_name_def acronym_mapping_absent)
  show ?thesis
    using g by (auto simp add: n new_col_name_def)
qed

text \<open>
  C6 refuted as stated: a recommendation-sheet column whose label is in the acronym lookup
  and that keeps its own name, because it is the key column \<^verbatim>\<open>District\<close>.
\<close>

theorem key_column_keeps_its_name:
  "acronym_mapping [(Str ''District'', Str ''Dist_Name'')] (Str ''District'') = Some (Str ''Dist_Name'')
   \<and> columns (district_rec_processed (acronym_mapping [(Str ''District'', Str ''Dist_Name'')])
                [series ''District'' Object [Str ''Pune'']]) = [''District'']"
  by code_simp

theorem rename_or_truncate_witness:
  "columns (district_rec_processed (acronym_mapping [(Str ''Irrigation Source'', Str ''Irr_Src'')])
              recommendation_sample) ! 1 = ''District''
   \<and> columns (district_rec_processed (acronym_mapping [(Str ''Irrigation Source'', Str ''Irr_Src'')])
              recommendation_sample) ! 3 = ''Irr_Src''
   \<and> columns (district_rec_processed Map.empty recommendation_sample) ! 3 = ''Irrigation''
   \<and> columns (district_rec_processed (acronym_mapping [(Str ''Irrigation Source'', Str ''Irr_Src'')])
              recommendation_sample) ! 2 = ''Groundwate''"
proof -
  let ?am = "acronym_mapping [(Str ''Irrigation Source'', Str ''Irr_Src'')]"
  have len: "1 < length recommendation_sample" "2 < length recommendation_sample"
    "3 < length recommendation_sample"
    by (simp_all add: recommendation_sample_def)
  have n1: "''District'' = name (recommendation_sample ! 1)"
    and n2: "''Groundwater Development Status'' = name (recommendation_sample ! 2)"
    and n3: "''Irrigation Source'' = name (recommendation_sample ! 3)"
    by (simp_all add: recommendation_sample_def series_def)
  have a: "?am (Str ''Irrigation Source'') = Some (Str ''Irr_Src'')"
    by (simp add: acronym_mapping_def notna_def)
  have b: "Str ''Groundwater Development Status''
           \<notin> fst ` set [(Str ''Irrigation Source'', Str ''Irr_Src'')]"
    by simp
  have e: "(Map.empty :: cell \<rightharpoonup> cell) (Str ''Irrigation Source'') = None"
    by simp
  from rename_or_truncate [OF len(1) n1, of ?am]
  have c1: "columns (district_rec_processed ?am recommendation_sample) ! 1 = ''District''"
    by simp
  from rename_or_truncate [OF len(3) n3, of ?am "''Irr_Src''"] a
  have c2: "columns (district_rec_processed ?am recommendation_sample) ! 3 = ''Irr_Src''"
    by simp
  from rename_or_truncate [OF len(3) n3, of Map.empty] e
  have c3: "columns (district_rec_processed Map.empty recommendation_sample) ! 3 = ''Irrigation''"
    by simp
  from rename_or_truncate [OF len(2) n2, of _ _ "[(Str ''Irrigation Source'', Str ''Irr_Src'')]"] b
  have c4: "columns (district_rec_processed ?am recommendation_sample) ! 2 = ''Groundwate''"
    by simp
  from c1 c2 c3 c4 show ?thesis by simp
qed

section \<open>Properties of the output schema\<close>

lemma zip_names:
  "map name (map fst (filter (\<lambda>p. \<not> snd p) (zip df bs)))
   = map fst (filter (\<lambda>p. \<not> snd p) (zip (map name df) bs))"
  by (induction df arbitrary: bs) (auto simp add: zip_Cons1 split: list.splits)

lemma kept_distinct:
  "distinct (map fst (filter (\<lambda>p. \<not> snd p) (zip ls (duplicated seen ls))))
   \<and> set (map fst (filter (\<lambda>p. \<not> snd p) (zip ls (duplicated seen ls)))) \<inter> set seen = {}"
proof (induction ls arbitrary: seen)
  case Nil
  then show ?case by simp
next
  case (Cons l ls)
  from Cons [of "l # seen"] show ?case by auto
qed

lemma columns_drop_duplicated: "distinct (columns (drop_duplicated df))"
proof -
  have "columns (drop_duplicated df)
        = map fst (filter (\<lambda>p. \<not> snd p) (zip (columns df) (duplicated [] (columns df))))"
    unfolding drop_duplicated_def columns_def by (rule zip_names)
  then show ?thesis
    using kept_distinct [of "columns df" "[]"] by simp
qed

lemma no_duplicated_distinct:
  "map fst (filter snd (zip ls (duplicated seen ls))) = [] \<Longrightarrow> distinct ls \<and> set ls \<inter> set seen = {}"
proof (induction ls arbitrary: seen)
  case Nil
  then show ?case by simp
next
  case (Cons l ls)
  from Cons.prems have l: "l \<notin> set seen"
    and r: "map fst (filter snd (zip ls (duplicated (l # seen) ls))) = []"
    by (auto split: if_splits)
  from Cons.IH [OF r] l show ?case by auto
qed

lemma remaining_duplicates_distinct: "distinct (columns (remaining_duplicates df))"
  using no_duplicated_distinct [of "columns df" "[]"]
  by (auto simp add: remaining_duplicates_def columns_drop_duplicated duplicated_labels_def)

lemma to_file_match_and_save:
  "to_file (match_and_save ok gdf master) = Some f \<Longrightarrow> \<exists>f'. f = remaining_duplicates f'"
  by (auto simp add: match_and_save_def stopped_def save_and_report_def
      split: sum.splits option.splits prod.splits if_splits)

lemma to_file_run:
  "to_file (create_true_solar_suitability_shapefile inp) = Some f \<Longrightarrow>
   \<exists>ok gdf master. to_file (match_and_save ok gdf master) = Some f"
  by (auto simp add: create_true_solar_suitability_shapefile_def stopped_def
      split: sum.splits option.splits)

text \<open>
  C5. Whenever a run reaches the save step, the column names of the frame that it hands
  to the file writer are pairwise distinct.
\<close>

theorem saved_columns_distinct:
  assumes "to_file (create_true_solar_suitability_shapefile inp) = Some f"
  shows "distinct (columns f)"
  using to_file_run [OF assms] to_file_match_and_save remaining_duplicates_distinct by blast

theorem saved_columns_distinct_witness:
  "to_file (create_true_solar_suitability_shapefile inputs_sample) = Some output_sample
   \<and> distinct (columns output_sample)"
proof -
  have r: "to_file (create_true_solar_suitability_shapefile inputs_sample) = Some output_sample"
    by code_simp
  from saved_columns_distinct [OF r] r show ?thesis by simp
qed

section \<open>Properties of the joins\<close>






lemma distinct_all_equal:
  assumes "distinct xs" and "\<And>x y. x \<in> set xs \<Longrightarrow> y \<in> set xs \<Longrightarrow> x = y"
  shows "length xs \<le> 1"
proof (cases xs)
  case Nil
  then show ?thesis by simp
next
  case (Cons a as)
  have "as = []"
  proof (cases as)
    case Nil
    then show ?thesis .
  next
    case (Cons b bs)
    with \<open>xs = a # as\<close> assms(1) have "a \<noteq> b" by simp
    moreover from Cons \<open>xs = a # as\<close> have "a = b" by (intro assms(2)) simp_all
    ultimately show ?thesis by simp
  qed
  with Cons show ?thesis by simp
qed

lemma matches_distinct: "distinct rk \<Longrightarrow> length (matches rk k) \<le> 1"
proof (rule distinct_all_equal)
  show "distinct (matches rk k)" by (simp add: matches_def)
next
  fix x y
  assume "distinct rk" "x \<in> set (matches rk k)" "y \<in> set (matches rk k)"
  then show "x = y"
    by (auto simp add: matches_iff nth_eq_iff_index_eq)
qed

lemma partners_distinct: "distinct rk \<Longrightarrow> length (partners rk k) = 1"
  using matches_distinct [of rk k]
  by (cases "matches rk k") (auto simp add: partners_def)

lemma concat_singletons:
  "(\<And>x. x \<in> set xs \<Longrightarrow> length (f x) = 1) \<Longrightarrow> map fst (concat (map (\<lambda>i. map (Pair i) (f i)) xs)) = xs"
proof (induction xs)
  case Nil
  then show ?case by simp
next
  case (Cons x xs)
  then have "length (f x) = 1" by simp
  then obtain p where "f x = [p]" by (cases "f x") auto
  with Cons show ?case by simp
qed

lemma join_indexers_distinct:
  assumes "distinct rk"
  shows "map fst (join_indexers lk rk) = [0..<length lk]"
  unfolding join_indexers_def
  by (rule concat_singletons) (simp add: partners_distinct assms)

lemma take_left_fst: "take_left ix vs = map (\<lambda>i. vs ! i) (map fst ix)"
  by (simp add: take_left_def case_prod_beta comp_def)

lemma take_left_distinct:
  "distinct rk \<Longrightarrow> length vs = length lk \<Longrightarrow> take_left (join_indexers lk rk) vs = vs"
  using map_nth [of vs] by (simp add: take_left_fst join_indexers_distinct)


lemma get_series_Inr: "get_series df l = Inr c \<Longrightarrow> c \<in> set df \<and> name c = l"
proof -
  assume a: "get_series df l = Inr c"
  then have "filter (\<lambda>c. name c = l) df = [c]"
    by (auto simp add: get_series_def split: list.splits)
  then have "c \<in> set (filter (\<lambda>c. name c = l) df)" by simp
  then show ?thesis by simp
qed


lemma rectangular_length: "rectangular df \<Longrightarrow> c \<in> set df \<Longrightarrow> length (vals c) = nrows df"
  by (simp add: rectangular_def list_all_iff)







text \<open>
  C3 refuted as stated: the ranking sheet names Aurangabad once, the recommendation
  sheet twice, and the master data after the joins has two records of that key.
\<close>

theorem master_data_repeats_a_key:
  "map_sum id (\<lambda>m. map vals (filter (\<lambda>c. name c = ''District_Clean'') m))
     (master_data ranking_sample recommendation_two_states community_sample acronym_sample
        potential_sample)
   = Inr [[Str ''Pune'', Str ''Aurangabad'', Str ''Aurangabad'']]"
  by code_simp

section \<open>Properties of the master record builder\<close>

lemma set_col_mem:
  "c \<in> set (set_col df l d vs) \<Longrightarrow>
   (name c = l \<and> vals c = vs \<and> dtype c = d) \<or> (c \<in> set df \<and> name c \<noteq> l)"
  by (auto simp add: set_col_def columns_def split: if_splits)

lemma select_columns_subset: "select_columns df ls = Some r \<Longrightarrow> set r \<subseteq> set df"
  by (induction ls arbitrary: r) (auto split: if_splits option.splits)

lemma select_or_raise_subset: "select_or_raise df ls = Inr r \<Longrightarrow> set r \<subseteq> set df"
  using select_columns_subset by (auto simp add: select_or_raise_def split: option.splits)

lemma str_accessor_Inr:
  "str_accessor df l = Inr vs \<Longrightarrow> \<exists>c\<in>set df. name c = l \<and> vals c = vs \<and> dtype c = Object"
  by (auto simp add: str_accessor_def and_then_def split: sum.splits if_splits dest: get_series_Inr)

lemma rename_columns_mem:
  "c \<in> set (rename_columns f df) \<Longrightarrow>
   \<exists>c0\<in>set df. name c = f (name c0) \<and> vals c = vals c0 \<and> dtype c = dtype c0"
  by (auto simp add: rename_columns_def)

lemma add_district_clean_Inr:
  "add_district_clean df = Inr df' \<Longrightarrow>
   \<exists>x\<in>set df. name x = ''District'' \<and> df' = set_col df ''District_Clean'' Object (map title_strip (vals x))"
  by (auto simp add: add_district_clean_def and_then_def split: sum.splits dest: str_accessor_Inr)

lemma length_take_right: "length (take_right ix vs) = length ix"
  by (simp add: take_right_def)

lemma merge_left_cols:
  assumes "merge_left l r on sfx = Inr j"
  shows "\<exists>lk rk. get_series l on = Inr lk \<and> get_series r on = Inr rk \<and>
     (\<forall>c\<in>set j.
        (\<exists>c0\<in>set l. (name c = name c0 \<or> (name c0 \<noteq> on \<and> name c = name c0 @ fst sfx))
            \<and> dtype c = dtype c0
            \<and> vals c = take_left (join_indexers (vals lk) (vals rk)) (vals c0))
      \<or> (\<exists>c0\<in>set r. name c0 \<noteq> on \<and> (name c = name c0 \<or> name c = name c0 @ snd sfx)
            \<and> dtype c = promote (join_indexers (vals lk) (vals rk)) (dtype c0)
            \<and> vals c = take_right (join_indexers (vals lk) (vals rk)) (vals c0)))"
proof -
  from assms obtain lk rk where lk: "get_series l on = Inr lk" and rk: "get_series r on = Inr rk"
    by (auto simp add: merge_left_def and_then_def split: sum.splits)
  let ?ix = "join_indexers (vals lk) (vals rk)"
  let ?ov = "\<lambda>n. n \<noteq> on \<and> n \<in> set (columns l) \<and> n \<in> set (columns r)"
  let ?L = "map (\<lambda>c. \<lparr>name = (if ?ov (name c) then name c @ fst sfx else name c),
                          dtype = dtype c, vals = take_left ?ix (vals c)\<rparr>) l"
  let ?R = "map (\<lambda>c. \<lparr>name = (if ?ov (name c) then name c @ snd sfx else name c),
                          dtype = promote ?ix (dtype c), vals = take_right ?ix (vals c)\<rparr>)
                 (filter (\<lambda>c. name c \<noteq> on) r)"
  have "merge_left l r on sfx = Inr (?L @ ?R)"
    by (simp add: merge_left_def and_then_def lk rk Let_def)
  with assms have j: "j = ?L @ ?R" by simp
  have "\<forall>c\<in>set j.
        (\<exists>c0\<in>set l. (name c = name c0 \<or> (name c0 \<noteq> on \<and> name c = name c0 @ fst sfx))
            \<and> dtype c = dtype c0 \<and> vals c = take_left ?ix (vals c0))
      \<or> (\<exists>c0\<in>set r. name c0 \<noteq> on \<and> (name c = name c0 \<or> name c = name c0 @ snd sfx)
            \<and> dtype c = promote ?ix (dtype c0) \<and> vals c = take_right ?ix (vals c0))"
    unfolding j by (auto split: if_splits)
  with lk rk show ?thesis by blast
qed

lemma length_join_indexers_distinct:
  "distinct rk \<Longrightarrow> length (join_indexers lk rk) = length lk"
proof -
  assume "distinct rk"
  then have "map fst (join_indexers lk rk) = [0..<length lk]"
    by (rule join_indexers_distinct)
  then have "length (map fst (join_indexers lk rk)) = length [0..<length lk]" by simp
  then show ?thesis by simp
qed

lemma merge_left_keeps_rows:
  assumes j: "merge_left l r on sfx = Inr j"
    and P: "\<forall>c\<in>set l. length (vals c) = length ks \<and> (name c = on \<longrightarrow> vals c = ks)"
    and D: "\<forall>c\<in>set r. name c = on \<longrightarrow> distinct (vals c)"
    and S: "\<forall>n. n \<noteq> on \<longrightarrow> n @ fst sfx \<noteq> on \<and> n @ snd sfx \<noteq> on"
  shows "\<forall>c\<in>set j. length (vals c) = length ks \<and> (name c = on \<longrightarrow> vals c = ks)"
proof
  fix c assume c: "c \<in> set j"
  from merge_left_cols [OF j] obtain lk rk where lk: "get_series l on = Inr lk"
    and rk: "get_series r on = Inr rk"
    and cols: "\<forall>c\<in>set j.
        (\<exists>c0\<in>set l. (name c = name c0 \<or> (name c0 \<noteq> on \<and> name c = name c0 @ fst sfx))
            \<and> dtype c = dtype c0
            \<and> vals c = take_left (join_indexers (vals lk) (vals rk)) (vals c0))
      \<or> (\<exists>c0\<in>set r. name c0 \<noteq> on \<and> (name c = name c0 \<or> name c = name c0 @ snd sfx)
            \<and> dtype c = promote (join_indexers (vals lk) (vals rk)) (dtype c0)
            \<and> vals c = take_right (join_indexers (vals lk) (vals rk)) (vals c0))"
    by blast
  let ?ix = "join_indexers (vals lk) (vals rk)"
  from lk P have lks: "vals lk = ks" by (auto dest: get_series_Inr)
  from rk D have d: "distinct (vals rk)" by (auto dest: get_series_Inr)
  then have n: "length ?ix = length ks" by (simp add: length_join_indexers_distinct lks)
  let ?goal = "length (vals c) = length ks \<and> (name c = on \<longrightarrow> vals c = ks)"
  from cols c have "(\<exists>c0\<in>set l. (name c = name c0 \<or> (name c0 \<noteq> on \<and> name c = name c0 @ fst sfx))
            \<and> dtype c = dtype c0 \<and> vals c = take_left ?ix (vals c0))
      \<or> (\<exists>c0\<in>set r. name c0 \<noteq> on \<and> (name c = name c0 \<or> name c = name c0 @ snd sfx)
            \<and> dtype c = promote ?ix (dtype c0) \<and> vals c = take_right ?ix (vals c0))"
    by (rule bspec)
  then show ?goal
  proof
    assume "\<exists>c0\<in>set l. (name c = name c0 \<or> (name c0 \<noteq> on \<and> name c = name c0 @ fst sfx))
            \<and> dtype c = dtype c0 \<and> vals c = take_left ?ix (vals c0)"
    then obtain c0 where c0: "c0 \<in> set l"
      and nm: "name c = name c0 \<or> (name c0 \<noteq> on \<and> name c = name c0 @ fst sfx)"
      and v: "vals c = take_left ?ix (vals c0)"
      by blast
    from c0 P have len: "length (vals c0) = length ks" and k: "name c0 = on \<longrightarrow> vals c0 = ks"
      by simp_all
    from len have "length (vals c0) = length (vals lk)" by (simp add: lks)
    with d have t: "take_left ?ix (vals c0) = vals c0" by (simp add: take_left_distinct)
    have "name c = on \<longrightarrow> name c0 = on"
      using nm S by metis
    with k len v t show ?goal by simp
  next
    assume "\<exists>c0\<in>set r. name c0 \<noteq> on \<and> (name c = name c0 \<or> name c = name c0 @ snd sfx)
            \<and> dtype c = promote ?ix (dtype c0) \<and> vals c = take_right ?ix (vals c0)"
    then obtain c0 where "c0 \<in> set r" and ne: "name c0 \<noteq> on"
      and nm: "name c = name c0 \<or> name c = name c0 @ snd sfx"
      and v: "vals c = take_right ?ix (vals c0)"
      by blast
    from ne nm S have "name c \<noteq> on" by metis
    with v n show ?goal by (simp add: length_take_right)
  qed
qed

lemma keyed_by_iff:
  "keyed_by ks df \<longleftrightarrow>
   (\<forall>c\<in>set df. length (vals c) = length ks \<and> (name c = ''District_Clean'' \<longrightarrow> vals c = ks))"
  by (auto simp add: keyed_by_def list_all_iff)

lemma suffix_not_key:
  "n @ ''_district_rec'' \<noteq> ''District_Clean''" "n @ ''_x'' \<noteq> ''District_Clean''"
  "n @ ''_y'' \<noteq> ''District_Clean''"
proof -
  have "last (n @ ''_district_rec'') \<noteq> last ''District_Clean''" by simp
  then show "n @ ''_district_rec'' \<noteq> ''District_Clean''" by metis
  have "last (n @ ''_x'') \<noteq> last ''District_Clean''" by simp
  then show "n @ ''_x'' \<noteq> ''District_Clean''" by metis
  have "last (n @ ''_y'') \<noteq> last ''District_Clean''" by simp
  then show "n @ ''_y'' \<noteq> ''District_Clean''" by metis
qed

lemma merge_left_keyed_by:
  assumes "merge_left l r ''District_Clean'' sfx = Inr j"
    and "keyed_by ks l"
    and "\<forall>c\<in>set r. name c = ''District_Clean'' \<longrightarrow> distinct (vals c)"
    and "sfx = ([], ''_district_rec'') \<or> sfx = (''_x'', ''_y'')"
  shows "keyed_by ks j"
proof -
  from assms(4) have S: "\<forall>n. n \<noteq> ''District_Clean'' \<longrightarrow>
      n @ fst sfx \<noteq> ''District_Clean'' \<and> n @ snd sfx \<noteq> ''District_Clean''"
    using suffix_not_key by auto
  from assms(2) have P: "\<forall>c\<in>set l. length (vals c) = length ks
      \<and> (name c = ''District_Clean'' \<longrightarrow> vals c = ks)"
    by (simp add: keyed_by_iff)
  from merge_left_keeps_rows [OF assms(1) P assms(3) S] show ?thesis
    by (simp add: keyed_by_iff)
qed

lemma cleaned_keys_distinct:
  assumes "add_district_clean df = Inr df'"
    and "\<forall>c\<in>set df. name c = ''District'' \<longrightarrow> distinct (map title_strip (vals c))"
  shows "\<forall>c\<in>set df'. name c = ''District_Clean'' \<longrightarrow> distinct (vals c)"
proof -
  from add_district_clean_Inr [OF assms(1)] obtain x where x: "x \<in> set df" "name x = ''District''"
    and df': "df' = set_col df ''District_Clean'' Object (map title_strip (vals x))"
    by blast
  from x assms(2) have "distinct (map title_strip (vals x))" by simp
  then show ?thesis
    unfolding df' using set_col_mem by fastforce
qed

lemma community_keys_distinct:
  assumes "community_sip_clean community_sip = Inr c"
    and "select_or_raise c [''District_Clean'', ''Community_SIP''] = Inr c2"
    and D: "\<forall>x\<in>set community_sip. name x = ''District'' \<longrightarrow> distinct (map title_strip (vals x))"
  shows "\<forall>x\<in>set c2. name x = ''District_Clean'' \<longrightarrow> distinct (vals x)"
proof -
  from assms(1) obtain c0 st c1 where c0: "select_or_raise community_sip [''State'', ''District'', ''Final''] = Inr c0"
    and c1: "add_district_clean (set_col c0 ''State'' Object st) = Inr c1"
    and c: "c = rename_columns (\<lambda>l. if l = ''Final'' then ''Community_SIP'' else l) c1"
    by (auto simp add: community_sip_clean_def and_then_def split: sum.splits)
  have "\<forall>x\<in>set (set_col c0 ''State'' Object st). name x = ''District'' \<longrightarrow> distinct (map title_strip (vals x))"
  proof (intro ballI impI)
    fix x assume "x \<in> set (set_col c0 ''State'' Object st)" "name x = ''District''"
    then have "x \<in> set c0" using set_col_mem by fastforce
    with c0 have "x \<in> set community_sip" using select_or_raise_subset by blast
    with D \<open>name x = ''District''\<close> show "distinct (map title_strip (vals x))" by simp
  qed
  with c1 have k: "\<forall>x\<in>set c1. name x = ''District_Clean'' \<longrightarrow> distinct (vals x)"
    by (rule cleaned_keys_distinct)
  show ?thesis
  proof (intro ballI impI)
    fix x assume x: "x \<in> set c2" "name x = ''District_Clean''"
    with assms(2) have "x \<in> set c" using select_or_raise_subset by blast
    then obtain y where y: "y \<in> set c1" "name x = (if name y = ''Final'' then ''Community_SIP'' else name y)"
      "vals x = vals y"
      unfolding c using rename_columns_mem by blast
    with x(2) have "name y = ''District_Clean''" by (auto split: if_splits)
    with k y show "distinct (vals x)" by simp
  qed
qed

lemma potential_keys_distinct:
  assumes "potential_clean potential_data = Inr p"
    and "select_or_raise p [''District_Clean'', ''Overall_Potential''] = Inr p2"
    and D: "\<forall>x\<in>set potential_data. name x = ''District'' \<longrightarrow> distinct (map title_strip (vals x))"
  shows "\<forall>x\<in>set p2. name x = ''District_Clean'' \<longrightarrow> distinct (vals x)"
proof -
  from assms(1) obtain p0 p1 where p0: "select_or_raise potential_data [''District'', ''Final Potential''] = Inr p0"
    and p1: "add_district_clean p0 = Inr p1"
    and p: "p = rename_columns (\<lambda>l. if l = ''Final Potential'' then ''Overall_Potential'' else l) p1"
    by (auto simp add: potential_clean_def and_then_def split: sum.splits)
  have "\<forall>x\<in>set p0. name x = ''District'' \<longrightarrow> distinct (map title_strip (vals x))"
    using p0 D select_or_raise_subset by blast
  with p1 have k: "\<forall>x\<in>set p1. name x = ''District_Clean'' \<longrightarrow> distinct (vals x)"
    by (rule cleaned_keys_distinct)
  show ?thesis
  proof (intro ballI impI)
    fix x assume x: "x \<in> set p2" "name x = ''District_Clean''"
    with assms(2) have "x \<in> set p" using select_or_raise_subset by blast
    then obtain y where y: "y \<in> set p1"
      "name x = (if name y = ''Final Potential'' then ''Overall_Potential'' else name y)"
      "vals x = vals y"
      unfolding p using rename_columns_mem by blast
    with x(2) have "name y = ''District_Clean''" by (auto split: if_splits)
    with k y show "distinct (vals x)" by simp
  qed
qed

lemma keyed_by_subset: "keyed_by ks df \<Longrightarrow> set df' \<subseteq> set df \<Longrightarrow> keyed_by ks df'"
  by (auto simp add: keyed_by_iff)

lemma length_fillna: "length (fillna v cs) = length cs"
  by (simp add: fillna_def)

lemma keyed_by_fill_column:
  "keyed_by ks df \<Longrightarrow> l \<noteq> ''District_Clean'' \<Longrightarrow> keyed_by ks (fill_column l v df)"
  by (auto simp add: keyed_by_iff fill_column_def length_fillna)

lemma base_keyed_by:
  assumes "master_base solar_ranking = Inr m0"
    and "add_district_clean m0 = Inr m"
    and "rectangular solar_ranking"
  shows "keyed_by (map title_strip (vals (solar_ranking ! 0))) m
         \<and> nrows solar_ranking = length (vals (solar_ranking ! 0))"
proof -
  from assms(1) have len: "length solar_ranking = 4"
    by (auto simp add: master_base_def split: if_splits)
  then obtain a b c d where r: "solar_ranking = [a, b, c, d]"
    by (auto simp add: length_Suc_conv numeral_eq_Suc)
  with assms(1) have m0: "m0 = [a\<lparr>name := ''District''\<rparr>, b\<lparr>name := ''Adaptation_New''\<rparr>,
      c\<lparr>name := ''Mitigation_New''\<rparr>, d\<lparr>name := ''Replacement_New''\<rparr>]"
    by (simp add: master_base_def)
  from assms(3) r have l: "length (vals b) = length (vals a)" "length (vals c) = length (vals a)"
    "length (vals d) = length (vals a)" and n: "nrows solar_ranking = length (vals a)"
    by (simp_all add: rectangular_def nrows_def)
  from add_district_clean_Inr [OF assms(2)] obtain x where x: "x \<in> set m0" "name x = ''District''"
    and m: "m = set_col m0 ''District_Clean'' Object (map title_strip (vals x))"
    by blast
  from x have "vals x = vals a" by (auto simp add: m0)
  with m have "m = m0 @ [\<lparr>name = ''District_Clean'', dtype = Object, vals = map title_strip (vals a)\<rparr>]"
    by (simp add: set_col_def columns_def m0)
  then have "keyed_by (map title_strip (vals a)) m"
    by (simp add: keyed_by_def m0 l)
  with n r show ?thesis by simp
qed

lemma merge_left_has_key:
  assumes "merge_left l r on sfx = Inr j"
  shows "\<exists>c\<in>set j. name c = on"
proof -
  from assms obtain lk rk where lk: "get_series l on = Inr lk" and rk: "get_series r on = Inr rk"
    by (auto simp add: merge_left_def and_then_def split: sum.splits)
  from lk have "lk \<in> set l" "name lk = on" by (simp_all add: get_series_Inr)
  then have "\<lparr>name = on, dtype = dtype lk,
      vals = take_left (join_indexers (vals lk) (vals rk)) (vals lk)\<rparr>
    \<in> set (map (\<lambda>c. \<lparr>name = (if name c \<noteq> on \<and> name c \<in> set (columns l) \<and> name c \<in> set (columns r)
                                  then name c @ fst sfx else name c),
                          dtype = dtype c,
                          vals = take_left (join_indexers (vals lk) (vals rk)) (vals c)\<rparr>) l)"
    by force
  moreover from assms lk rk have "set (map (\<lambda>c. \<lparr>name = (if name c \<noteq> on \<and> name c \<in> set (columns l) \<and> name c \<in> set (columns r)
                                  then name c @ fst sfx else name c),
                          dtype = dtype c,
                          vals = take_left (join_indexers (vals lk) (vals rk)) (vals c)\<rparr>) l) \<subseteq> set j"
    by (auto simp add: merge_left_def and_then_def Let_def)
  ultimately show ?thesis by force
qed

lemma merge_district_rec_keyed_by:
  assumes "merge_district_rec m0 r0 = Inr m1"
    and "master_base solar_ranking = Inr m0"
    and "rectangular solar_ranking"
    and "\<forall>c\<in>set r0. name c = ''District'' \<longrightarrow> distinct (map title_strip (vals c))"
  shows "keyed_by (map title_strip (vals (solar_ranking ! 0))) m1"
proof -
  from assms(1) obtain m r j where m: "add_district_clean m0 = Inr m"
    and r: "add_district_clean r0 = Inr r"
    and j: "merge_left m r ''District_Clean'' ([], ''_district_rec'') = Inr j"
    and m1: "m1 = drop_columns (duplicate_cols j) j"
    by (auto simp add: merge_district_rec_def and_then_def split: sum.splits)
  from base_keyed_by [OF assms(2) m assms(3)]
  have "keyed_by (map title_strip (vals (solar_ranking ! 0))) m" by simp
  moreover from r assms(4) have "\<forall>c\<in>set r. name c = ''District_Clean'' \<longrightarrow> distinct (vals c)"
    by (rule cleaned_keys_distinct)
  ultimately have "keyed_by (map title_strip (vals (solar_ranking ! 0))) j"
    using j by (intro merge_left_keyed_by [OF j]) simp_all
  then show ?thesis
    unfolding m1 by (rule keyed_by_subset) (simp add: drop_columns_def)
qed

lemma merge_community_keyed_by:
  assumes "merge_community m1 community_sip = Inr m2"
    and "keyed_by ks m1"
    and "\<forall>x\<in>set community_sip. name x = ''District'' \<longrightarrow> distinct (map title_strip (vals x))"
  shows "keyed_by ks m2"
proof -
  from assms(1) obtain c c2 j where c: "community_sip_clean community_sip = Inr c"
    and c2: "select_or_raise c [''District_Clean'', ''Community_SIP''] = Inr c2"
    and j: "merge_left m1 c2 ''District_Clean'' (''_x'', ''_y'') = Inr j"
    and m2: "m2 = fill_column ''Community_SIP'' (Str []) j"
    by (auto simp add: merge_community_def and_then_def require_column_def
        split: sum.splits if_splits)
  from c c2 assms(3) have "\<forall>x\<in>set c2. name x = ''District_Clean'' \<longrightarrow> distinct (vals x)"
    by (rule community_keys_distinct)
  with assms(2) have "keyed_by ks j"
    by (intro merge_left_keyed_by [OF j]) simp_all
  then show ?thesis
    unfolding m2 by (rule keyed_by_fill_column) simp
qed

lemma merge_potential_keyed_by:
  assumes "merge_potential m2 potential_data = Inr m"
    and "keyed_by ks m2"
    and "\<forall>x\<in>set potential_data. name x = ''District'' \<longrightarrow> distinct (map title_strip (vals x))"
  shows "keyed_by ks m \<and> (\<exists>c\<in>set m. name c = ''District_Clean'')"
proof -
  from assms(1) obtain p p2 where p: "potential_clean potential_data = Inr p"
    and p2: "select_or_raise p [''District_Clean'', ''Overall_Potential''] = Inr p2"
    and j: "merge_left m2 p2 ''District_Clean'' (''_x'', ''_y'') = Inr m"
    by (auto simp add: merge_potential_def and_then_def split: sum.splits)
  from p p2 assms(3) have "\<forall>x\<in>set p2. name x = ''District_Clean'' \<longrightarrow> distinct (vals x)"
    by (rule potential_keys_distinct)
  with assms(2) have "keyed_by ks m"
    by (intro merge_left_keyed_by [OF j]) simp_all
  with merge_left_has_key [OF j] show ?thesis by simp
qed

text \<open>
  C3, as the code has it. The master record builder removes no duplicates: each of its
  three joins keeps every master row and repeats it for every row of the joined sheet
  with the same cleaned district name. When the cleaned district names of the
  recommendation, community and potential sheets are pairwise distinct, the joins leave
  the rows and the key column of the ranking sheet as they are; if the normalized keys
  of the ranking sheet are pairwise distinct as well, the master data has one record for
  each key.
\<close>

theorem master_one_record_per_key:
  assumes "master_data solar_ranking district_recommendations community_sip gis_acronym potential_data
           = Inr master"
    and "acronym_of_sheet gis_acronym = Inr am"
    and "rectangular solar_ranking"
    and "\<forall>c\<in>set (district_rec_processed am district_recommendations).
           name c = ''District'' \<longrightarrow> distinct (map title_strip (vals c))"
    and "\<forall>c\<in>set community_sip. name c = ''District'' \<longrightarrow> distinct (map title_strip (vals c))"
    and "\<forall>c\<in>set potential_data. name c = ''District'' \<longrightarrow> distinct (map title_strip (vals c))"
    and "distinct (map (\<lambda>x. create_match_key (title_strip x)) (vals (solar_ranking ! 0)))"
  shows "nrows master = nrows solar_ranking
       \<and> (\<exists>c\<in>set master. name c = ''District_Clean'')
       \<and> (\<forall>c\<in>set master. name c = ''District_Clean'' \<longrightarrow>
             vals c = map title_strip (vals (solar_ranking ! 0))
             \<and> distinct (map create_match_key (vals c)))"
proof -
  let ?ks = "map title_strip (vals (solar_ranking ! 0))"
  from assms(1,2) obtain m0 m1 m2 where m0: "master_base solar_ranking = Inr m0"
    and m1: "merge_district_rec m0 (district_rec_processed am district_recommendations) = Inr m1"
    and m2: "merge_community m1 community_sip = Inr m2"
    and m: "merge_potential m2 potential_data = Inr master"
    by (auto simp add: master_data_def and_then_def split: sum.splits)
  from m1 m0 assms(3,4) have "keyed_by ?ks m1" by (rule merge_district_rec_keyed_by)
  with m2 have "keyed_by ?ks m2" using assms(5) by (rule merge_community_keyed_by)
  with m have k: "keyed_by ?ks master" and e: "\<exists>c\<in>set master. name c = ''District_Clean''"
    using assms(6) merge_potential_keyed_by by blast+
  from e have "master \<noteq> []" by auto
  then have "hd master \<in> set master" by simp
  with k have "length (vals (hd master)) = length ?ks" by (simp add: keyed_by_iff)
  moreover from \<open>master \<noteq> []\<close> have "nrows master = length (vals (hd master))"
    by (cases master) (simp_all add: nrows_def)
  moreover have "nrows solar_ranking = length (vals (solar_ranking ! 0))"
  proof -
    from m1 obtain mm where "add_district_clean m0 = Inr mm"
      by (auto simp add: merge_district_rec_def and_then_def split: sum.splits)
    from base_keyed_by [OF m0 this assms(3)] show ?thesis by simp
  qed
  ultimately have n: "nrows master = nrows solar_ranking" by simp
  from assms(7) have "distinct (map create_match_key ?ks)" by (simp add: comp_def)
  with k have "\<forall>c\<in>set master. name c = ''District_Clean'' \<longrightarrow>
             vals c = ?ks \<and> distinct (map create_match_key (vals c))"
    by (auto simp add: keyed_by_iff)
  with n e show ?thesis by blast
qed


theorem master_one_record_per_key_witness:
  "\<not> isl (master_data ranking_sample recommendation_sample community_sample acronym_sample
             potential_sample)
   \<and> nrows (projr (master_data ranking_sample recommendation_sample community_sample
                      acronym_sample potential_sample)) = nrows ranking_sample"
proof -
  let ?am = "acronym_mapping (zip [Str ''Irrigation Source'', NaN] [Str ''Irr_Src'', Str ''Unused''])"
  have r: "\<not> isl (master_data ranking_sample recommendation_sample community_sample
                    acronym_sample potential_sample)"
    by code_simp
  then obtain m where m: "master_data ranking_sample recommendation_sample community_sample
                             acronym_sample potential_sample = Inr m"
    by (cases "master_data ranking_sample recommendation_sample community_sample
                 acronym_sample potential_sample") auto
  have am: "acronym_of_sheet acronym_sample = Inr ?am"
    by (simp add: acronym_of_sheet_def acronym_sample_def series_def nrows_def get_series_def
        and_then_def)
  have rect: "rectangular ranking_sample"
    by code_simp
  have d1: "\<forall>c\<in>set (district_rec_processed ?am recommendation_sample).
              name c = ''District'' \<longrightarrow> distinct (map title_strip (vals c))"
    by code_simp
  have d2: "\<forall>c\<in>set community_sample. name c = ''District'' \<longrightarrow> distinct (map title_strip (vals c))"
    by code_simp
  have d3: "\<forall>c\<in>set potential_sample. name c = ''District'' \<longrightarrow> distinct (map title_strip (vals c))"
    by code_simp
  have k: "distinct (map (\<lambda>x. create_match_key (title_strip x)) (vals (ranking_sample ! 0)))"
    by code_simp
  from master_one_record_per_key [OF m am rect d1 d2 d3 k]
  have "nrows m = nrows ranking_sample" by simp
  with r m show ?thesis by simp
qed

section \<open>Properties of the output writer\<close>

lemma fill_if_present_map: "fill_if_present l v df = map (\<lambda>c. if name c = l then c\<lparr>vals := fillna v (vals c)\<rparr> else c) df"
proof (cases "l \<in> set (columns df)")
  case True
  then show ?thesis by (simp add: fill_if_present_def fill_column_def)
next
  case False
  then have "map (\<lambda>c. if name c = l then c\<lparr>vals := fillna v (vals c)\<rparr> else c) df = df"
    by (intro map_idI) (auto simp add: columns_def)
  with False show ?thesis by (simp add: fill_if_present_def)
qed

lemma fillna_idem: "fillna v (fillna w xs) = fillna w xs" if "w \<noteq> NaN"
  using that by (simp add: fillna_def)

lemma fillna_nth:
  "i < length xs \<Longrightarrow> fillna v xs ! i = (if xs ! i = NaN then v else xs ! i)"
  by (simp add: fillna_def)

lemma fill_suitability_mem:
  "fill_suitability df = map (\<lambda>c. if name c \<in> {''Adapt'', ''Mitigate'', ''Replace'', ''General_SI''}
                                   then c\<lparr>vals := fillna (Str ''No Data'') (vals c)\<rparr> else c) df"
  by (simp add: fill_suitability_def fill_if_present_map comp_def)

lemma fill_community_map:
  "fill_community df = map (\<lambda>c. if name c = ''Comm_SIP'' then c\<lparr>vals := fillna (Str []) (vals c)\<rparr>
                               else if name c = ''Has_CommSI'' then c\<lparr>vals := fillna (Bool False) (vals c)\<rparr>
                               else c) df"
  by (simp add: fill_community_def fill_if_present_map comp_def)

lemma fill_district_rec_map:
  "fill_district_rec rc df
   = map (\<lambda>c. if name c \<in> set rc
               then c\<lparr>vals := fillna (if dtype c = Object then Str ''N/A'' else Num 0) (vals c)\<rparr>
               else c) df"
proof (induction rc arbitrary: df)
  case Nil
  then show ?case by (simp add: fill_district_rec_def)
next
  case (Cons col rc)
  have "fill_district_rec (col # rc) df = fill_district_rec rc (fill_rec_col col df)"
    by (simp add: fill_district_rec_def)
  also have "\<dots> = map (\<lambda>c. if name c \<in> set rc
               then c\<lparr>vals := fillna (if dtype c = Object then Str ''N/A'' else Num 0) (vals c)\<rparr>
               else c) (fill_rec_col col df)"
    by (rule Cons.IH)
  also have "\<dots> = map (\<lambda>c. if name c \<in> set (col # rc)
               then c\<lparr>vals := fillna (if dtype c = Object then Str ''N/A'' else Num 0) (vals c)\<rparr>
               else c) df"
    by (simp add: fill_rec_col_def fillna_idem)
  finally show ?case .
qed

lemma collect_rec_cols_subset:
  "collect_rec_cols skip cols st = st' \<Longrightarrow> set (fst st') \<subseteq> set (fst st) \<union> (set cols - set skip)"
proof (induction skip cols st arbitrary: st' rule: collect_rec_cols.induct)
  case (1 skip st)
  then show ?case by simp
next
  case (2 skip col cols rec ess)
  then show ?case by (auto split: if_splits)
qed

lemma selected_columns_rec:
  assumes "selected_columns gdf merged = Inr (sel, rc)"
  shows "set rc \<inter> set (skip_cols gdf) = {}"
proof -
  from assms obtain st where "rc = fst (collect_rec_cols (skip_cols gdf) (columns (fst st)) ([], snd st))"
    by (auto simp add: selected_columns_def and_then_def Let_def split: sum.splits)
  then show ?thesis
    using collect_rec_cols_subset [of "skip_cols gdf" "columns (fst st)" "([], snd st)"] by auto
qed

text \<open>
  C4, as the code has it. After the fills, in every column of the selected frame a cell
  that was not missing is unchanged, and a cell that was missing holds \<^verbatim>\<open>No Data\<close> in the
  four suitability columns, the empty string in \<^verbatim>\<open>Comm_SIP\<close>, false in \<^verbatim>\<open>Has_CommSI\<close>,
  \<^verbatim>\<open>N/A\<close> in a collected recommendation column of dtype object and 0 in any other
  collected recommendation column. Every other column keeps its missing cells: the
  recommendation columns are those outside the skip list, so the joined \<^verbatim>\<open>State_Name\<close>
  and \<^verbatim>\<open>Dist_Name\<close> are not among them.
\<close>

theorem missing_values_filled:
  assumes sel: "selected_columns gdf merged = Inr (sel, rc)"
    and k: "k < length sel"
    and i: "i < length (vals (sel ! k))"
  shows "name (fill_missing rc sel ! k) = name (sel ! k)
       \<and> (vals (sel ! k) ! i \<noteq> NaN \<longrightarrow> vals (fill_missing rc sel ! k) ! i = vals (sel ! k) ! i)
       \<and> (vals (sel ! k) ! i = NaN \<longrightarrow>
             (name (sel ! k) \<in> {''Adapt'', ''Mitigate'', ''Replace'', ''General_SI''} \<longrightarrow>
                vals (fill_missing rc sel ! k) ! i = Str ''No Data'')
           \<and> (name (sel ! k) = ''Comm_SIP'' \<longrightarrow> vals (fill_missing rc sel ! k) ! i = Str [])
           \<and> (name (sel ! k) = ''Has_CommSI'' \<longrightarrow> vals (fill_missing rc sel ! k) ! i = Bool False)
           \<and> (name (sel ! k) \<in> set rc \<and> dtype (sel ! k) = Object \<longrightarrow>
                vals (fill_missing rc sel ! k) ! i = Str ''N/A'')
           \<and> (name (sel ! k) \<in> set rc \<and> dtype (sel ! k) \<noteq> Object \<longrightarrow>
                vals (fill_missing rc sel ! k) ! i = Num 0)
           \<and> (name (sel ! k) \<notin> {''Adapt'', ''Mitigate'', ''Replace'', ''General_SI'', ''Comm_SIP'',
                                  ''Has_CommSI''} \<union> set rc \<longrightarrow>
                vals (fill_missing rc sel ! k) ! i = NaN))
       \<and> set rc \<inter> set (skip_cols gdf) = {}"
proof -
  from sel have d: "set rc \<inter> set (skip_cols gdf) = {}" by (rule selected_columns_rec)
  then have n: "''Adapt'' \<notin> set rc" "''Mitigate'' \<notin> set rc" "''Replace'' \<notin> set rc"
    "''General_SI'' \<notin> set rc" "''Comm_SIP'' \<notin> set rc" "''Has_CommSI'' \<notin> set rc"
    by (auto simp add: skip_cols_def)
  let ?c = "sel ! k"
  have f: "fill_missing rc sel ! k
     = (\<lambda>c. if name c \<in> set rc
               then c\<lparr>vals := fillna (if dtype c = Object then Str ''N/A'' else Num 0) (vals c)\<rparr>
               else c)
       ((\<lambda>c. if name c = ''Comm_SIP'' then c\<lparr>vals := fillna (Str []) (vals c)\<rparr>
                               else if name c = ''Has_CommSI'' then c\<lparr>vals := fillna (Bool False) (vals c)\<rparr>
                               else c)
        ((\<lambda>c. if name c \<in> {''Adapt'', ''Mitigate'', ''Replace'', ''General_SI''}
                                   then c\<lparr>vals := fillna (Str ''No Data'') (vals c)\<rparr> else c) ?c))"
    using k by (simp add: fill_missing_def fill_district_rec_map fill_community_map fill_suitability_mem)
  consider (cat) "name ?c \<in> {''Adapt'', ''Mitigate'', ''Replace'', ''General_SI''}"
    | (comm) "name ?c = ''Comm_SIP''"
    | (has) "name ?c = ''Has_CommSI''"
    | (rec) "name ?c \<in> set rc"
    | (other) "name ?c \<notin> {''Adapt'', ''Mitigate'', ''Replace'', ''General_SI'', ''Comm_SIP'',
                                  ''Has_CommSI''} \<union> set rc"
    by blast
  then have "name (fill_missing rc sel ! k) = name ?c
       \<and> (vals ?c ! i \<noteq> NaN \<longrightarrow> vals (fill_missing rc sel ! k) ! i = vals ?c ! i)
       \<and> (vals ?c ! i = NaN \<longrightarrow>
             (name ?c \<in> {''Adapt'', ''Mitigate'', ''Replace'', ''General_SI''} \<longrightarrow>
                vals (fill_missing rc sel ! k) ! i = Str ''No Data'')
           \<and> (name ?c = ''Comm_SIP'' \<longrightarrow> vals (fill_missing rc sel ! k) ! i = Str [])
           \<and> (name ?c = ''Has_CommSI'' \<longrightarrow> vals (fill_missing rc sel ! k) ! i = Bool False)
           \<and> (name ?c \<in> set rc \<and> dtype ?c = Object \<longrightarrow>
                vals (fill_missing rc sel ! k) ! i = Str ''N/A'')
           \<and> (name ?c \<in> set rc \<and> dtype ?c \<noteq> Object \<longrightarrow>
                vals (fill_missing rc sel ! k) ! i = Num 0)
           \<and> (name ?c \<notin> {''Adapt'', ''Mitigate'', ''Replace'', ''General_SI'', ''Comm_SIP'',
                                  ''Has_CommSI''} \<union> set rc \<longrightarrow>
                vals (fill_missing rc sel ! k) ! i = NaN))"
  proof cases
    case cat
    with n have "name ?c \<notin> set rc" by auto
    with cat i show ?thesis by (auto simp add: f fillna_nth)
  next
    case comm
    with n i show ?thesis by (simp add: f fillna_nth)
  next
    case has
    with n i show ?thesis by (simp add: f fillna_nth)
  next
    case rec
    with n have "name ?c \<notin> {''Adapt'', ''Mitigate'', ''Replace'', ''General_SI'', ''Comm_SIP'', ''Has_CommSI''}"
      by auto
    with rec i show ?thesis by (simp add: f fillna_nth)
  next
    case other
    with i show ?thesis by (simp add: f)
  qed
  with d show ?thesis by simp
qed


theorem missing_values_filled_witness:
  "vals (fill_missing [''Groundwate'', ''Irr_Src''] selected_sample ! 3) ! 2 = Str ''No Data''
   \<and> vals (fill_missing [''Groundwate'', ''Irr_Src''] selected_sample ! 3) ! 0 = Str ''Highly Suitable''
   \<and> vals (fill_missing [''Groundwate'', ''Irr_Src''] selected_sample ! 7) ! 2 = Str []
   \<and> vals (fill_missing [''Groundwate'', ''Irr_Src''] selected_sample ! 11) ! 1 = Str ''N/A''
   \<and> vals (fill_missing [''Groundwate'', ''Irr_Src''] selected_sample ! 12) ! 0 = Num 0
   \<and> vals (fill_missing [''Groundwate'', ''Irr_Src''] selected_sample ! 9) ! 2 = NaN
   \<and> vals (fill_missing [] [series ''geometry'' Geometry [Geom 0],
                             series ''Has_CommSI'' Object [NaN]] ! 1) ! 0 = Bool False"
proof -
  let ?rc = "[''Groundwate'', ''Irr_Src'']"
  have s: "selected_columns boundary_with_key merged_sample = Inr (selected_sample, ?rc)"
    by code_simp
  have k: "3 < length selected_sample" "7 < length selected_sample" "11 < length selected_sample"
    "12 < length selected_sample" "9 < length selected_sample"
    by (simp_all add: selected_sample_def series_def)
  have i: "2 < length (vals (selected_sample ! 3))" "0 < length (vals (selected_sample ! 3))"
    "2 < length (vals (selected_sample ! 7))" "1 < length (vals (selected_sample ! 11))"
    "0 < length (vals (selected_sample ! 12))" "2 < length (vals (selected_sample ! 9))"
    by (simp_all add: selected_sample_def series_def)
  have c3: "name (selected_sample ! 3) = ''Adapt''" "vals (selected_sample ! 3) ! 2 = NaN"
    "vals (selected_sample ! 3) ! 0 = Str ''Highly Suitable''"
    by (simp_all add: selected_sample_def series_def)
  have c7: "name (selected_sample ! 7) = ''Comm_SIP''" "vals (selected_sample ! 7) ! 2 = NaN"
    by (simp_all add: selected_sample_def series_def)
  have c11: "name (selected_sample ! 11) = ''Groundwate''" "vals (selected_sample ! 11) ! 1 = NaN"
    "dtype (selected_sample ! 11) = Object"
    by (simp_all add: selected_sample_def series_def)
  have c12: "name (selected_sample ! 12) = ''Irr_Src''" "vals (selected_sample ! 12) ! 0 = NaN"
    "dtype (selected_sample ! 12) = Numeric"
    by (simp_all add: selected_sample_def series_def)
  have c9: "name (selected_sample ! 9) = ''Dist_Name''" "vals (selected_sample ! 9) ! 2 = NaN"
    by (simp_all add: selected_sample_def series_def)
  from missing_values_filled [OF s k(1) i(1)] c3
  have r1: "vals (fill_missing ?rc selected_sample ! 3) ! 2 = Str ''No Data''" by simp
  from missing_values_filled [OF s k(1) i(2)] c3
  have r2: "vals (fill_missing ?rc selected_sample ! 3) ! 0 = Str ''Highly Suitable''" by simp
  from missing_values_filled [OF s k(2) i(3)] c7
  have r3: "vals (fill_missing ?rc selected_sample ! 7) ! 2 = Str []" by simp
  from missing_values_filled [OF s k(3) i(4)] c11
  have r4: "vals (fill_missing ?rc selected_sample ! 11) ! 1 = Str ''N/A''" by simp
  from missing_values_filled [OF s k(4) i(5)] c12
  have r5: "vals (fill_missing ?rc selected_sample ! 12) ! 0 = Num 0" by simp
  from missing_values_filled [OF s k(5) i(6)] c9
  have r6: "vals (fill_missing ?rc selected_sample ! 9) ! 2 = NaN" by simp
  let ?g = "[series ''geometry'' Geometry [Geom 0], series ''Has_CommSI'' Object [NaN],
             series ''match_key'' Object [Str ''pune'']]"
  let ?sel = "[series ''geometry'' Geometry [Geom 0], series ''Has_CommSI'' Object [NaN]]"
  have s': "selected_columns ?g ?g = Inr (?sel, [])"
    by code_simp
  have "1 < length ?sel" "0 < length (vals (?sel ! 1))"
    by (simp_all add: series_def)
  from missing_values_filled [OF s' this]
  have r7: "vals (fill_missing [] ?sel ! 1) ! 0 = Bool False"
    by (simp add: series_def)
  from r1 r2 r3 r4 r5 r6 r7 show ?thesis by simp
qed

text \<open>
  C4 refuted as stated: in the sample run the joined district name of the boundary
  feature without a master record is text that is missing, and it is still missing in
  the frame that is saved.
\<close>

theorem district_name_stays_missing:
  "map_option (\<lambda>f. map vals (filter (\<lambda>c. name c = ''Dist_Name'') f))
     (to_file (create_true_solar_suitability_shapefile inputs_sample))
   = Some [[Str ''pune '', Str ''AURANGABAD'', NaN]]"
  by code_simp

section \<open>Properties of the saved category columns\<close>

lemma find_map_same:
  "(\<And>x. x \<in> set xs \<Longrightarrow> P (f x) = P x \<and> (P x \<longrightarrow> f x = x)) \<Longrightarrow> find P (map f xs) = find P xs"
  by (induction xs) auto

lemma find_append_eq:
  "find P (xs @ ys) = (case find P xs of None \<Rightarrow> find P ys | Some x \<Rightarrow> Some x)"
  by (induction xs) auto

lemma get_col_set_col_other:
  assumes "l' \<noteq> l"
  shows "get_col (set_col df l d vs) l' = get_col df l'"
proof (cases "l \<in> set (columns df)")
  case True
  have "find (\<lambda>c. name c = l') (map (\<lambda>c. if name c = l then c\<lparr>dtype := d, vals := vs\<rparr> else c) df)
        = find (\<lambda>c. name c = l') df"
    by (rule find_map_same) (use assms in auto)
  with True show ?thesis by (simp add: get_col_def set_col_def)
next
  case False
  with assms show ?thesis
    by (simp add: get_col_def set_col_def find_append_eq split: option.splits)
qed

lemma get_col_Some: "get_col df l = Some c \<Longrightarrow> c \<in> set df \<and> name c = l"
  by (auto simp add: get_col_def find_Some_iff)


lemma apply_core_mapping_mem:
  assumes "apply_core_mapping ms (df, ess) = (df', ess')"
    and "fst ` set ms \<subseteq> olds" and "snd ` set ms \<subseteq> news" and "olds \<inter> news = {}"
    and "c \<in> set df'"
  shows "(c \<in> set df \<and> name c \<notin> snd ` {p \<in> set ms. get_col df (fst p) \<noteq> None})
       \<or> (\<exists>p\<in>set ms. \<exists>src. get_col df (fst p) = Some src \<and> name c = snd p
             \<and> vals c = vals src \<and> dtype c = dtype src)"
  using assms
proof (induction ms arbitrary: df ess)
  case Nil
  then show ?case by simp
next
  case (Cons p ms)
  obtain old new where p: "p = (old, new)" by (cases p)
  from Cons.prems p have on: "old \<in> olds" "new \<in> news" and sub: "fst ` set ms \<subseteq> olds" "snd ` set ms \<subseteq> news"
    by auto
  show ?case
  proof (cases "get_col df old")
    case None
    with Cons.prems(1) p have "apply_core_mapping ms (df, ess) = (df', ess')" by simp
    from Cons.IH [OF this sub Cons.prems(4,5)] None p show ?thesis by auto
  next
    case (Some s)
    let ?df1 = "set_col df new (dtype s) (vals s)"
    from Cons.prems(1) p Some have "apply_core_mapping ms (?df1, ess @ [new]) = (df', ess')" by simp
    from Cons.IH [OF this sub Cons.prems(4,5)]
    have ih: "(c \<in> set ?df1 \<and> name c \<notin> snd ` {p \<in> set ms. get_col ?df1 (fst p) \<noteq> None})
       \<or> (\<exists>p\<in>set ms. \<exists>src. get_col ?df1 (fst p) = Some src \<and> name c = snd p
             \<and> vals c = vals src \<and> dtype c = dtype src)" .
    have same: "get_col ?df1 (fst q) = get_col df (fst q)" if "q \<in> set ms" for q
    proof -
      from that sub have "fst q \<in> olds" by auto
      with on Cons.prems(4) have "fst q \<noteq> new" by auto
      then show ?thesis by (rule get_col_set_col_other)
    qed
    from ih show ?thesis
    proof
      assume a: "c \<in> set ?df1 \<and> name c \<notin> snd ` {p \<in> set ms. get_col ?df1 (fst p) \<noteq> None}"
      then have nn: "name c \<notin> snd ` {p \<in> set ms. get_col df (fst p) \<noteq> None}"
        using same by force
      from a set_col_mem [of c df new "dtype s" "vals s"]
      have "(name c = new \<and> vals c = vals s \<and> dtype c = dtype s) \<or> (c \<in> set df \<and> name c \<noteq> new)"
        by simp
      then show ?thesis
      proof
        assume "name c = new \<and> vals c = vals s \<and> dtype c = dtype s"
        with Some p show ?thesis by auto
      next
        assume "c \<in> set df \<and> name c \<noteq> new"
        with nn p show ?thesis by auto
      qed
    next
      assume "\<exists>p\<in>set ms. \<exists>src. get_col ?df1 (fst p) = Some src \<and> name c = snd p
             \<and> vals c = vals src \<and> dtype c = dtype src"
      then obtain q src where "q \<in> set ms" "get_col ?df1 (fst q) = Some src" "name c = snd q"
        "vals c = vals src" "dtype c = dtype src"
        by blast
      with same have "q \<in> set (p # ms) \<and> get_col df (fst q) = Some src \<and> name c = snd q
        \<and> vals c = vals src \<and> dtype c = dtype src"
        by simp
      then show ?thesis by blast
    qed
  qed
qed

lemma apply_core_mapping_ess:
  assumes "apply_core_mapping ms (df, ess) = (df', ess')"
    and "fst ` set ms \<subseteq> olds" and "snd ` set ms \<subseteq> news" and "olds \<inter> news = {}"
  shows "set ess' = set ess \<union> snd ` {p \<in> set ms. get_col df (fst p) \<noteq> None}"
  using assms
proof (induction ms arbitrary: df ess)
  case Nil
  then show ?case by simp
next
  case (Cons p ms)
  obtain old new where p: "p = (old, new)" by (cases p)
  from Cons.prems p have on: "old \<in> olds" "new \<in> news" and sub: "fst ` set ms \<subseteq> olds" "snd ` set ms \<subseteq> news"
    by auto
  show ?case
  proof (cases "get_col df old")
    case None
    with Cons.prems(1) p have "apply_core_mapping ms (df, ess) = (df', ess')" by simp
    from Cons.IH [OF this sub Cons.prems(4)] None p show ?thesis by auto
  next
    case (Some s)
    let ?df1 = "set_col df new (dtype s) (vals s)"
    from Cons.prems(1) p Some have "apply_core_mapping ms (?df1, ess @ [new]) = (df', ess')" by simp
    from Cons.IH [OF this sub Cons.prems(4)]
    have ih: "set ess' = set (ess @ [new]) \<union> snd ` {p \<in> set ms. get_col ?df1 (fst p) \<noteq> None}" .
    have same: "get_col ?df1 (fst q) = get_col df (fst q)" if "q \<in> set ms" for q
    proof -
      from that sub have "fst q \<in> olds" by auto
      with on Cons.prems(4) have "fst q \<noteq> new" by auto
      then show ?thesis by (rule get_col_set_col_other)
    qed
    then have "{p \<in> set ms. get_col ?df1 (fst p) \<noteq> None} = {p \<in> set ms. get_col df (fst p) \<noteq> None}"
      by auto
    moreover from Some p have "{q \<in> set (p # ms). get_col df (fst q) \<noteq> None}
        = insert p {q \<in> set ms. get_col df (fst q) \<noteq> None}"
      by auto
    ultimately show ?thesis using ih p by simp
  qed
qed

lemma add_has_commsi_mem:
  "c \<in> set (fst (add_has_commsi (df, ess))) \<Longrightarrow> c \<in> set df \<or> name c = ''Has_CommSI''"
  using set_col_mem by (fastforce simp add: add_has_commsi_def split: option.splits)

lemma add_has_commsi_ess:
  "set (snd (add_has_commsi (df, ess))) \<subseteq> insert ''Has_CommSI'' (set ess)"
  by (auto simp add: add_has_commsi_def split: option.splits)

lemma collect_rec_cols_ess:
  "collect_rec_cols skip cols st = st' \<Longrightarrow> set (snd st') \<subseteq> set (snd st) \<union> (set cols - set skip)"
proof (induction skip cols st arbitrary: st' rule: collect_rec_cols.induct)
  case (1 skip st)
  then show ?case by simp
next
  case (2 skip col cols rec ess)
  then show ?case by (auto split: if_splits)
qed

lemma select_columns_names: "select_columns df ls = Some r \<Longrightarrow> c \<in> set r \<Longrightarrow> name c \<in> set ls"
  by (induction ls arbitrary: r) (auto split: if_splits option.splits)

lemma select_or_raise_names: "select_or_raise df ls = Inr r \<Longrightarrow> c \<in> set r \<Longrightarrow> name c \<in> set ls"
  using select_columns_names by (auto simp add: select_or_raise_def split: option.splits)

lemma drop_duplicated_subset: "set (drop_duplicated df) \<subseteq> set df"
  by (auto simp add: drop_duplicated_def dest: set_zip_leftD)

lemma drop_temporary_subset: "set (drop_temporary merged) \<subseteq> set merged"
  using drop_duplicated_subset by (fastforce simp add: drop_temporary_def drop_columns_def)

lemma core_olds_news:
  "fst ` set core_suitability_mapping
     \<subseteq> {''Adaptation_New'', ''Mitigation_New'', ''Replacement_New'', ''Overall_Potential'',
         ''Community_SIP'', ''State'', ''District''}"
  "snd ` set core_suitability_mapping
     \<subseteq> {''Adapt'', ''Mitigate'', ''Replace'', ''General_SI'', ''Comm_SIP'', ''State_Name'', ''Dist_Name''}"
  "{''Adaptation_New'', ''Mitigation_New'', ''Replacement_New'', ''Overall_Potential'',
         ''Community_SIP'', ''State'', ''District''}
   \<inter> {''Adapt'', ''Mitigate'', ''Replace'', ''General_SI'', ''Comm_SIP'', ''State_Name'', ''Dist_Name''} = {}"
  by (simp_all add: core_suitability_mapping_def)

lemma core_news_skipped:
  "p \<in> set core_suitability_mapping \<Longrightarrow> snd p \<in> set (skip_cols gdf) \<and> snd p \<noteq> ''Has_CommSI''
     \<and> snd p \<noteq> ''geometry''"
  by (auto simp add: core_suitability_mapping_def skip_cols_def)

lemma core_news_inj:
  assumes "p \<in> set core_suitability_mapping" "q \<in> set core_suitability_mapping" "snd p = snd q"
  shows "p = q"
proof -
  have "distinct (map snd core_suitability_mapping)"
    by (simp add: core_suitability_mapping_def)
  then have "inj_on snd (set core_suitability_mapping)"
    by (simp add: distinct_map)
  with assms show ?thesis by (simp add: inj_on_def)
qed

text \<open>A selected column that carries a short core name and is not a boundary column is a copy.\<close>

lemma selected_core_source:
  assumes sel: "selected_columns gdf merged = Inr (sel, rc)"
    and c: "c \<in> set sel"
    and p: "(old, name c) \<in> set core_suitability_mapping"
    and g: "name c \<notin> set (columns gdf)"
  shows "\<exists>src\<in>set merged. name src = old \<and> vals c = vals src \<and> dtype c = dtype src"
proof -
  let ?d = "drop_temporary merged"
  obtain df1 ess1 where a1: "apply_core_mapping core_suitability_mapping (?d, essential_cols gdf) = (df1, ess1)"
    by (cases "apply_core_mapping core_suitability_mapping (?d, essential_cols gdf)")
  obtain df2 ess2 where a2: "add_has_commsi (df1, ess1) = (df2, ess2)"
    by (cases "add_has_commsi (df1, ess1)")
  obtain rc' ess3 where a3: "collect_rec_cols (skip_cols gdf) (columns df2) ([], ess2) = (rc', ess3)"
    by (cases "collect_rec_cols (skip_cols gdf) (columns df2) ([], ess2)")
  from sel a1 a2 a3 have s: "select_or_raise df2 ess3 = Inr sel"
    by (auto simp add: selected_columns_def and_then_def Let_def split: sum.splits)
  from s c have c2: "c \<in> set df2" using select_or_raise_subset by blast
  from s c have n3: "name c \<in> set ess3" by (rule select_or_raise_names)
  from core_news_skipped [OF p] have sk: "name c \<in> set (skip_cols gdf)" "name c \<noteq> ''Has_CommSI''"
    "name c \<noteq> ''geometry''"
    by simp_all
  from collect_rec_cols_ess [OF a3] n3 sk(1) have n2: "name c \<in> set ess2" by auto
  from add_has_commsi_ess [of df1 ess1] a2 n2 sk(2) have n1: "name c \<in> set ess1" by auto
  from add_has_commsi_mem [of c df1 ess1] a2 c2 sk(2) have c1: "c \<in> set df1" by auto
  from apply_core_mapping_ess [OF a1 core_olds_news]
  have e1: "set ess1 = set (essential_cols gdf)
      \<union> snd ` {p \<in> set core_suitability_mapping. get_col ?d (fst p) \<noteq> None}" .
  from g sk(3) have "name c \<notin> set (essential_cols gdf)"
    by (auto simp add: essential_cols_def)
  with n1 e1 have present: "name c \<in> snd ` {p \<in> set core_suitability_mapping. get_col ?d (fst p) \<noteq> None}"
    by auto
  from apply_core_mapping_mem [OF a1 core_olds_news c1] present
  obtain q src where q: "q \<in> set core_suitability_mapping" "get_col ?d (fst q) = Some src"
    "name c = snd q" "vals c = vals src" "dtype c = dtype src"
    by blast
  from core_news_inj [OF q(1) p] q(3) have "q = (old, name c)" by simp
  then have "fst q = old" by (metis fst_conv)
  with q(2) have "src \<in> set ?d" "name src = old" by (auto dest: get_col_Some)
  with drop_temporary_subset have "src \<in> set merged" by blast
  with \<open>name src = old\<close> q(4,5) show ?thesis by blast
qed

lemma clean_gdf_columns:
  assumes "clean_gdf gdf0 = Inr gdf" and "l \<in> set (columns gdf)"
  shows "l = ''geometry'' \<or> is_name_column l"
proof -
  from assms(2) obtain c where c: "c \<in> set gdf" "name c = l" by (auto simp add: columns_def)
  with assms(1) have "name c \<in> set (''geometry'' # name_columns gdf0)"
    unfolding clean_gdf_def by (intro select_or_raise_names)
  with c show ?thesis by (auto simp add: name_columns_def)
qed

lemma upper_char_not_N:
  "upper_char c = CHR ''N'' \<Longrightarrow> c = CHR ''N'' \<or> c = CHR ''n''"
proof -
  assume a: "upper_char c = CHR ''N''"
  show ?thesis
  proof (cases "is_lower c")
    case True
    with a have "char_of ((of_char c :: nat) - 32) = CHR ''N''" by (simp add: upper_char_def)
    then have "of_char (char_of ((of_char c :: nat) - 32) :: char) = (of_char (CHR ''N'') :: nat)" by simp
    then have "((of_char c :: nat) - 32) mod 256 = 78" by simp
    moreover from True have "97 \<le> (of_char c :: nat)" "(of_char c :: nat) \<le> 122"
      by (simp_all add: is_lower_def Let_def)
    ultimately have "(of_char c :: nat) = 110" by simp
    then have "char_of (of_char c :: nat) = (char_of (110 :: nat) :: char)" by simp
    moreover have "(char_of (110 :: nat) :: char) = CHR ''n''" by code_simp
    ultimately have "c = CHR ''n''" by simp
    then show ?thesis by simp
  next
    case False
    with a show ?thesis by (simp add: upper_char_def)
  qed
qed

lemma name_column_first:
  "is_name_column l \<Longrightarrow> \<exists>t. l = CHR ''N'' # t \<or> l = CHR ''n'' # t"
proof -
  assume "is_name_column l"
  then have "\<exists>u. py_upper l = CHR ''N'' # u"
    by (auto simp add: is_name_column_def startswith_def) (cases "py_upper l"; simp)+
  then obtain u where u: "map upper_char l = CHR ''N'' # u" by (auto simp add: py_upper_def)
  then obtain c t where l: "l = c # t" by (cases l) auto
  with u have "upper_char c = CHR ''N''" by simp
  then have "c = CHR ''N'' \<or> c = CHR ''n''" by (rule upper_char_not_N)
  with l show ?thesis by auto
qed

lemma add_match_key_Inr:
  "add_match_key df src = Inr g \<Longrightarrow>
   \<exists>s\<in>set df. name s = src \<and> g = set_col df ''match_key'' Object (map (\<lambda>x. Str (create_match_key x)) (vals s))"
  by (auto simp add: add_match_key_def and_then_def split: sum.splits dest: get_series_Inr)

lemma set_col_columns: "set (columns (set_col df l d vs)) = insert l (set (columns df))"
proof (cases "l \<in> set (columns df)")
  case True
  have "map name (map (\<lambda>c. if name c = l then c\<lparr>dtype := d, vals := vs\<rparr> else c) df) = map name df"
    by (induction df) auto
  with True show ?thesis by (auto simp add: set_col_def columns_def)
next
  case False
  then show ?thesis by (simp add: set_col_def columns_def)
qed

lemma boundary_first_char:
  assumes "clean_gdf gdf0 = Inr gdf" and "add_match_key gdf mc = Inr g" and "l \<in> set (columns g)"
  shows "\<exists>t. l = CHR ''g'' # t \<or> l = CHR ''N'' # t \<or> l = CHR ''n'' # t \<or> l = CHR ''m'' # t"
proof -
  from add_match_key_Inr [OF assms(2)] obtain vs where "g = set_col gdf ''match_key'' Object vs"
    by blast
  with assms(3) have "l = ''match_key'' \<or> l \<in> set (columns gdf)"
    by (simp add: set_col_columns)
  then show ?thesis
  proof
    assume "l = ''match_key''"
    then show ?thesis by simp
  next
    assume "l \<in> set (columns gdf)"
    with assms(1) have "l = ''geometry'' \<or> is_name_column l" by (rule clean_gdf_columns)
    then show ?thesis using name_column_first by auto
  qed
qed

text \<open>A merged column whose name does not start like a boundary column comes from the master data.\<close>

lemma merged_from_master:
  assumes mg: "merged_gdf g m = Inr mg"
    and src: "src \<in> set mg"
    and first: "\<forall>l\<in>set (columns g).
        \<exists>t. l = CHR ''g'' # t \<or> l = CHR ''N'' # t \<or> l = CHR ''n'' # t \<or> l = CHR ''m'' # t"
    and n: "name src = a # t" "a \<notin> {CHR ''g'', CHR ''N'', CHR ''n'', CHR ''m''}"
  shows "\<exists>lk rk. get_series g ''match_key'' = Inr lk \<and> get_series m ''match_key'' = Inr rk
     \<and> (\<exists>c0\<in>set m. name c0 \<noteq> ''match_key'' \<and> (name src = name c0 \<or> name src = name c0 @ ''_y'')
           \<and> vals src = take_right (join_indexers (vals lk) (vals rk)) (vals c0))"
proof -
  from merge_left_cols [OF mg [unfolded merged_gdf_def]] obtain lk rk
    where lk: "get_series g ''match_key'' = Inr lk"
      and rk: "get_series m ''match_key'' = Inr rk"
      and cols: "\<forall>c\<in>set mg.
        (\<exists>c0\<in>set g. (name c = name c0 \<or> (name c0 \<noteq> ''match_key'' \<and> name c = name c0 @ fst (''_x'', ''_y'')))
            \<and> dtype c = dtype c0
            \<and> vals c = take_left (join_indexers (vals lk) (vals rk)) (vals c0))
      \<or> (\<exists>c0\<in>set m. name c0 \<noteq> ''match_key'' \<and> (name c = name c0 \<or> name c = name c0 @ snd (''_x'', ''_y''))
            \<and> dtype c = promote (join_indexers (vals lk) (vals rk)) (dtype c0)
            \<and> vals c = take_right (join_indexers (vals lk) (vals rk)) (vals c0))"
    by blast
  have "\<not> (\<exists>c0\<in>set g. (name src = name c0 \<or> (name c0 \<noteq> ''match_key'' \<and> name src = name c0 @ ''_x'')))"
  proof
    assume "\<exists>c0\<in>set g. (name src = name c0 \<or> (name c0 \<noteq> ''match_key'' \<and> name src = name c0 @ ''_x''))"
    then obtain c0 where c0: "c0 \<in> set g" "name src = name c0 \<or> name src = name c0 @ ''_x''"
      by blast
    then have "name c0 \<in> set (columns g)" by (simp add: columns_def)
    with first obtain u where
      "name c0 = CHR ''g'' # u \<or> name c0 = CHR ''N'' # u \<or> name c0 = CHR ''n'' # u \<or> name c0 = CHR ''m'' # u"
      by blast
    with c0(2) n show False by auto
  qed
  with cols src have "\<exists>c0\<in>set m. name c0 \<noteq> ''match_key'' \<and> (name src = name c0 \<or> name src = name c0 @ ''_y'')
            \<and> vals src = take_right (join_indexers (vals lk) (vals rk)) (vals c0)"
    by fastforce
  with lk rk show ?thesis by blast
qed

lemma take_right_cells:
  assumes "length rk \<le> length vs"
  shows "set (take_right (join_indexers lk rk) vs) \<subseteq> insert NaN (set vs)"
proof
  fix x assume "x \<in> set (take_right (join_indexers lk rk) vs)"
  then obtain i p where ip: "(i, p) \<in> set (join_indexers lk rk)"
    and x: "x = (case p of None \<Rightarrow> NaN | Some j \<Rightarrow> vs ! j)"
    by (auto simp add: take_right_def)
  show "x \<in> insert NaN (set vs)"
  proof (cases p)
    case None
    with x show ?thesis by simp
  next
    case (Some j)
    with ip have "j < length rk" by (simp add: join_indexers_Some)
    with assms have "j < length vs" by simp
    with x Some show ?thesis by simp
  qed
qed

lemma set_fillna: "set (fillna v xs) \<subseteq> insert v (set xs)"
  by (auto simp add: fillna_def)

lemma fill_missing_mem:
  assumes "c' \<in> set (fill_missing rc sel)"
  shows "\<exists>c\<in>set sel. name c' = name c \<and> dtype c' = dtype c
     \<and> (name c \<in> {''Adapt'', ''Mitigate'', ''Replace'', ''General_SI''} \<and> name c \<notin> set rc
          \<longrightarrow> vals c' = fillna (Str ''No Data'') (vals c))"
proof -
  define S :: "column \<Rightarrow> column" where "S = (\<lambda>c. if name c \<in> {''Adapt'', ''Mitigate'', ''Replace'', ''General_SI''}
                            then c\<lparr>vals := fillna (Str ''No Data'') (vals c)\<rparr> else c)"
  define C :: "column \<Rightarrow> column" where "C = (\<lambda>c. if name c = ''Comm_SIP'' then c\<lparr>vals := fillna (Str []) (vals c)\<rparr>
                            else if name c = ''Has_CommSI'' then c\<lparr>vals := fillna (Bool False) (vals c)\<rparr>
                            else c)"
  define R :: "column \<Rightarrow> column" where "R = (\<lambda>c. if name c \<in> set rc
               then c\<lparr>vals := fillna (if dtype c = Object then Str ''N/A'' else Num 0) (vals c)\<rparr>
               else c)"
  have "fill_missing rc sel = map R (map C (map S sel))"
    by (simp only: fill_missing_def fill_district_rec_map fill_community_map fill_suitability_mem
        S_def C_def R_def)
  with assms obtain c where c: "c \<in> set sel" and c': "c' = R (C (S c))"
    by auto
  have s: "name (S c) = name c" "dtype (S c) = dtype c"
    "name c \<in> {''Adapt'', ''Mitigate'', ''Replace'', ''General_SI''} \<longrightarrow>
       vals (S c) = fillna (Str ''No Data'') (vals c)"
    by (simp_all add: S_def)
  have cc: "name (C (S c)) = name c" "dtype (C (S c)) = dtype c"
    "name c \<in> {''Adapt'', ''Mitigate'', ''Replace'', ''General_SI''} \<longrightarrow> vals (C (S c)) = vals (S c)"
    using s(1,2) by (auto simp add: C_def)
  have r: "name (R (C (S c))) = name c" "dtype (R (C (S c))) = dtype c"
    "name c \<notin> set rc \<longrightarrow> vals (R (C (S c))) = vals (C (S c))"
    using cc(1,2) by (auto simp add: R_def)
  from s cc r have "name c' = name c \<and> dtype c' = dtype c
     \<and> (name c \<in> {''Adapt'', ''Mitigate'', ''Replace'', ''General_SI''} \<and> name c \<notin> set rc
          \<longrightarrow> vals c' = fillna (Str ''No Data'') (vals c))"
    unfolding c' by auto
  with c show ?thesis by blast
qed

lemma remaining_duplicates_subset: "set (remaining_duplicates df) \<subseteq> set df"
  using drop_duplicated_subset by (auto simp add: remaining_duplicates_def)

lemma match_and_save_to_file:
  assumes "to_file (match_and_save ok gdf master) = Some f"
  shows "\<exists>m mc g mg sel rc. add_match_key master ''District_Clean'' = Inr m
     \<and> match_column gdf = Some mc \<and> add_match_key gdf mc = Inr g \<and> merged_gdf g m = Inr mg
     \<and> selected_columns g mg = Inr (sel, rc) \<and> f = remaining_duplicates (fill_missing rc sel)"
  using assms
  by (auto simp add: match_and_save_def stopped_def save_and_report_def final_gdf_def and_then_def
      split: sum.splits option.splits prod.splits if_splits)

lemma set_fillna_strict: "set (fillna v xs) \<subseteq> insert v (set xs - {NaN})"
  by (auto simp add: fillna_def)

lemma category_pairs:
  assumes "(old, new) \<in> set (take 4 core_suitability_mapping)"
  shows "(old, new) \<in> set core_suitability_mapping"
    and "new \<in> {''Adapt'', ''Mitigate'', ''Replace'', ''General_SI''}"
    and "\<exists>a t. old = a # t \<and> a \<notin> {CHR ''g'', CHR ''N'', CHR ''n'', CHR ''m''}"
    and "\<forall>n. old \<noteq> n @ ''_y''"
proof -
  from assms have cases: "(old, new) = (''Adaptation_New'', ''Adapt'')
      \<or> (old, new) = (''Mitigation_New'', ''Mitigate'')
      \<or> (old, new) = (''Replacement_New'', ''Replace'')
      \<or> (old, new) = (''Overall_Potential'', ''General_SI'')"
    by (simp add: core_suitability_mapping_def)
  then show "(old, new) \<in> set core_suitability_mapping"
    by (auto simp add: core_suitability_mapping_def)
  from cases show "new \<in> {''Adapt'', ''Mitigate'', ''Replace'', ''General_SI''}" by auto
  from cases show "\<exists>a t. old = a # t \<and> a \<notin> {CHR ''g'', CHR ''N'', CHR ''n'', CHR ''m''}" by auto
  from cases have "last old \<noteq> CHR ''y''" by auto
  then show "\<forall>n. old \<noteq> n @ ''_y''" by auto
qed

lemma category_not_boundary:
  assumes "\<exists>t. l = CHR ''g'' # t \<or> l = CHR ''N'' # t \<or> l = CHR ''n'' # t \<or> l = CHR ''m'' # t"
  shows "l \<notin> {''Adapt'', ''Mitigate'', ''Replace'', ''General_SI''}"
  using assms by auto

lemma master_with_key_length:
  assumes rect: "rectangular master"
    and m: "add_match_key master ''District_Clean'' = Inr m"
    and rk: "get_series m ''match_key'' = Inr rk"
    and c0: "c0 \<in> set m"
  shows "length (vals rk) = length (vals c0)" and "name c0 \<noteq> ''match_key'' \<longrightarrow> c0 \<in> set master"
proof -
  from add_match_key_Inr [OF m] obtain s where s: "s \<in> set master"
    and m': "m = set_col master ''match_key'' Object (map (\<lambda>x. Str (create_match_key x)) (vals s))"
    by blast
  let ?ks = "map (\<lambda>x. Str (create_match_key x)) (vals s)"
  have all: "length (vals c) = nrows master" if "c \<in> set m" for c
  proof -
    from that m' set_col_mem [of c master "''match_key''" Object ?ks]
    have "vals c = ?ks \<or> c \<in> set master" by auto
    with rect s show ?thesis by (auto simp add: rectangular_length)
  qed
  from rk have "rk \<in> set m" by (simp add: get_series_Inr)
  with c0 all show "length (vals rk) = length (vals c0)" by simp
  from c0 m' set_col_mem [of c0 master "''match_key''" Object ?ks]
  show "name c0 \<noteq> ''match_key'' \<longrightarrow> c0 \<in> set master" by auto
qed

text \<open>
  C9, as the code has it. The script does not check the category values against any list
  of levels. In the saved frame every cell of a suitability category column is
  \<^verbatim>\<open>No Data\<close> or a value that the corresponding master column (\<^verbatim>\<open>Adaptation_New\<close>,
  \<^verbatim>\<open>Mitigation_New\<close>, \<^verbatim>\<open>Replacement_New\<close>, \<^verbatim>\<open>Overall_Potential\<close>) holds, whatever that
  value is.
\<close>

theorem category_values_are_copied:
  assumes clean: "clean_gdf gdf0 = Inr gdf"
    and rect: "rectangular master"
    and f: "to_file (match_and_save ok gdf master) = Some f"
    and c: "c \<in> set f"
    and p: "(old, name c) \<in> set (take 4 core_suitability_mapping)"
  shows "\<exists>src\<in>set master. name src = old
           \<and> set (vals c) \<subseteq> insert (Str ''No Data'') (set (vals src) - {NaN})"
proof -
  from match_and_save_to_file [OF f] obtain m mc g mg sel rc
    where m: "add_match_key master ''District_Clean'' = Inr m"
      and g: "add_match_key gdf mc = Inr g"
      and mg: "merged_gdf g m = Inr mg"
      and sel: "selected_columns g mg = Inr (sel, rc)"
      and f': "f = remaining_duplicates (fill_missing rc sel)"
    by blast
  note pairs = category_pairs [OF p]
  have first: "\<forall>l\<in>set (columns g).
        \<exists>t. l = CHR ''g'' # t \<or> l = CHR ''N'' # t \<or> l = CHR ''n'' # t \<or> l = CHR ''m'' # t"
    using boundary_first_char [OF clean g] by blast
  from c f' have "c \<in> set (fill_missing rc sel)" using remaining_duplicates_subset by blast
  from fill_missing_mem [OF this] obtain c1 where c1: "c1 \<in> set sel" "name c = name c1"
    and v: "name c1 \<in> {''Adapt'', ''Mitigate'', ''Replace'', ''General_SI''} \<and> name c1 \<notin> set rc
          \<longrightarrow> vals c = fillna (Str ''No Data'') (vals c1)"
    by blast
  from core_news_skipped [OF pairs(1)] have "name c \<in> set (skip_cols g)" by simp
  with selected_columns_rec [OF sel] have "name c \<notin> set rc" by auto
  with v c1(2) pairs(2) have vc: "vals c = fillna (Str ''No Data'') (vals c1)" by simp
  have ng: "name c1 \<notin> set (columns g)"
  proof
    assume "name c1 \<in> set (columns g)"
    with first have "\<exists>t. name c1 = CHR ''g'' # t \<or> name c1 = CHR ''N'' # t
        \<or> name c1 = CHR ''n'' # t \<or> name c1 = CHR ''m'' # t"
      by blast
    from category_not_boundary [OF this] c1(2) pairs(2) show False by simp
  qed
  from pairs(1) c1(2) have p1: "(old, name c1) \<in> set core_suitability_mapping" by simp
  from selected_core_source [OF sel c1(1) p1 ng] obtain src1
    where src1: "src1 \<in> set mg" "name src1 = old" "vals c1 = vals src1"
    by blast
  from pairs(3) src1(2) obtain a t where at: "name src1 = a # t"
    "a \<notin> {CHR ''g'', CHR ''N'', CHR ''n'', CHR ''m''}"
    by auto
  from merged_from_master [OF mg src1(1) first at] obtain lk rk c0
    where lk: "get_series g ''match_key'' = Inr lk"
      and rk: "get_series m ''match_key'' = Inr rk"
      and c0: "c0 \<in> set m" "name c0 \<noteq> ''match_key''"
        "name src1 = name c0 \<or> name src1 = name c0 @ ''_y''"
        "vals src1 = take_right (join_indexers (vals lk) (vals rk)) (vals c0)"
    by blast
  from c0(3) src1(2) pairs(4) have n0: "name c0 = old" by auto
  from master_with_key_length [OF rect m rk c0(1)] c0(2)
  have len: "length (vals rk) = length (vals c0)" and in_master: "c0 \<in> set master"
    by simp_all
  from len have "set (take_right (join_indexers (vals lk) (vals rk)) (vals c0)) \<subseteq> insert NaN (set (vals c0))"
    by (intro take_right_cells) simp
  with c0(4) src1(3) have "set (vals c1) \<subseteq> insert NaN (set (vals c0))" by simp
  with vc set_fillna_strict [of "Str ''No Data''" "vals c1"]
  have "set (vals c) \<subseteq> insert (Str ''No Data'') (set (vals c0) - {NaN})" by auto
  with in_master n0 show ?thesis by blast
qed

theorem category_values_are_copied_witness:
  "\<exists>src\<in>set master_sample. name src = ''Adaptation_New''
      \<and> set (vals (output_sample ! 3)) \<subseteq> insert (Str ''No Data'') (set (vals src) - {NaN})"
proof -
  have clean: "clean_gdf boundary_sample = Inr cleaned_boundary_sample"
    by code_simp
  have rect: "rectangular master_sample"
    by code_simp
  have f: "to_file (match_and_save True cleaned_boundary_sample master_sample) = Some output_sample"
    by code_simp
  have c: "output_sample ! 3 \<in> set output_sample"
    by (simp add: output_sample_def)
  have p: "(''Adaptation_New'', name (output_sample ! 3)) \<in> set (take 4 core_suitability_mapping)"
    by (simp add: output_sample_def series_def core_suitability_mapping_def)
  from category_values_are_copied [OF clean rect f c p] show ?thesis .
qed

text \<open>
  C9 refuted as stated: the ranking sheet gives Pune a level that is not in the
  legend's list for the category, and the saved frame holds it.
\<close>

theorem unlisted_level_is_saved:
  "map_option (\<lambda>f. map vals (filter (\<lambda>c. name c = ''Adapt'') f))
     (to_file (create_true_solar_suitability_shapefile inputs_unlisted))
   = Some [[Str ''Not Assessed'', Str ''Less Suitable'', Str ''No Data'']]
   \<and> ''Not Assessed'' \<notin> set (''No Data'' # map fst (get_category_colors ''Adaptation''))"
  by code_simp

section \<open>Properties of a run without matches\<close>




lemma apply_core_mapping_columns:
  assumes "apply_core_mapping ms (df, ess) = (df', ess')"
    and "fst ` set ms \<subseteq> olds" and "snd ` set ms \<subseteq> news" and "olds \<inter> news = {}"
  shows "set (columns df') = set (columns df) \<union> snd ` {p \<in> set ms. get_col df (fst p) \<noteq> None}"
  using assms
proof (induction ms arbitrary: df ess)
  case Nil
  then show ?case by simp
next
  case (Cons p ms)
  obtain old new where p: "p = (old, new)" by (cases p)
  from Cons.prems p have on: "old \<in> olds" "new \<in> news"
    and sub: "fst ` set ms \<subseteq> olds" "snd ` set ms \<subseteq> news"
    by auto
  show ?case
  proof (cases "get_col df old")
    case None
    with Cons.prems(1) p have "apply_core_mapping ms (df, ess) = (df', ess')" by simp
    from Cons.IH [OF this sub Cons.prems(4)] None p show ?thesis by auto
  next
    case (Some s)
    let ?df1 = "set_col df new (dtype s) (vals s)"
    from Cons.prems(1) p Some have "apply_core_mapping ms (?df1, ess @ [new]) = (df', ess')" by simp
    from Cons.IH [OF this sub Cons.prems(4)]
    have ih: "set (columns df') = set (columns ?df1) \<union> snd ` {p \<in> set ms. get_col ?df1 (fst p) \<noteq> None}" .
    have same: "get_col ?df1 (fst q) = get_col df (fst q)" if "q \<in> set ms" for q
    proof -
      from that sub have "fst q \<in> olds" by auto
      with on Cons.prems(4) have "fst q \<noteq> new" by auto
      then show ?thesis by (rule get_col_set_col_other)
    qed
    then have "{p \<in> set ms. get_col ?df1 (fst p) \<noteq> None} = {p \<in> set ms. get_col df (fst p) \<noteq> None}"
      by auto
    moreover from Some p have "{q \<in> set (p # ms). get_col df (fst q) \<noteq> None}
        = insert p {q \<in> set ms. get_col df (fst q) \<noteq> None}"
      by auto
    ultimately show ?thesis using ih p by (simp add: set_col_columns)
  qed
qed
















end
